theory Spec2Isabelle
  imports Complex_Main "HOL-Library.AList"
begin

section \<open>Numbers and strings\<close>

text \<open>
  The ledger is written in TypeScript, where a \<^verbatim>\<open>number\<close> is an IEEE 754 double. A
  finite double is a rational, and each of \<^verbatim>\<open>+\<close>, \<^verbatim>\<open>-\<close>, \<^verbatim>\<open>*\<close>, \<^verbatim>\<open>/\<close> returns the
  double nearest to the exact result, ties going to the even significand. The model has
  the finite doubles only: a result whose magnitude reaches \<open>2^1024\<close>, a division by zero
  and an operand that is an infinity or NaN are outside it, and so is the sign of zero
  (which nothing in the ledger can observe: the one divisor that can be zero,
  \<^verbatim>\<open>age + 1\<close>, is a sum with a non-zero constant and so is never the negative zero). Comparisons of finite doubles
  are those of the rationals. Every operation returns a double; what is proved of all
  rational operands holds of the doubles among them.
\<close>

type_synonym number = rat

definition roundHalfEven :: "rat \<Rightarrow> int" where
  \<comment> \<open>The nearest integer; halfway between two, the even one.\<close>
  "roundHalfEven y =
     (if y - of_int \<lfloor>y\<rfloor> < 1 / 2 then \<lfloor>y\<rfloor>
      else if 1 / 2 < y - of_int \<lfloor>y\<rfloor> then \<lfloor>y\<rfloor> + 1
      else if even \<lfloor>y\<rfloor> then \<lfloor>y\<rfloor> else \<lfloor>y\<rfloor> + 1)"

function binade :: "rat \<Rightarrow> int" where
  \<comment> \<open>For positive \<open>x\<close>, the exponent \<open>e\<close> with \<open>2^e \<le> x < 2^(e+1)\<close>.\<close>
  "binade x =
     (if x \<le> 0 then 0
      else if 2 \<le> x then binade (x / 2) + 1
      else if x < 1 then binade (x * 2) - 1
      else 0)"
  by pat_completeness auto
termination
proof (relation "measure (\<lambda>x. nat \<lceil>x\<rceil> + 2 * nat \<lceil>1 / x\<rceil>)", goal_cases)
  case 1
  show ?case by simp
next
  case (2 x)
  then have x: "2 \<le> x" by simp
  have a: "\<lceil>x / 2\<rceil> < \<lceil>x\<rceil>"
  proof -
    have "x / 2 \<le> of_int \<lceil>x\<rceil> / 2" by (simp add: divide_right_mono)
    also have "\<dots> \<le> of_int (\<lceil>x\<rceil> - 1)"
    proof -
      from x have "2 \<le> \<lceil>x\<rceil>" by (simp add: le_ceiling_iff)
      then have "(2::rat) \<le> of_int \<lceil>x\<rceil>" by (metis of_int_le_iff of_int_numeral)
      then show ?thesis by simp
    qed
    finally have "\<lceil>x / 2\<rceil> \<le> \<lceil>x\<rceil> - 1" by (simp only: ceiling_le_iff)
    then show ?thesis by simp
  qed
  from x have "0 < 1 / x" "1 / x \<le> 1" "0 < 1 / (x / 2)" "1 / (x / 2) \<le> 1"
    by (simp_all add: field_simps)
  then have b: "\<lceil>1 / x\<rceil> = 1" "\<lceil>1 / (x / 2)\<rceil> = 1"
    by (simp_all add: ceiling_eq_iff)
  from x have "0 < \<lceil>x / 2\<rceil>" by (simp add: less_ceiling_iff)
  with a b
  have "nat \<lceil>x / 2\<rceil> + 2 * nat \<lceil>1 / (x / 2)\<rceil> < nat \<lceil>x\<rceil> + 2 * nat \<lceil>1 / x\<rceil>"
    by linarith
  then show ?case by (simp only: in_measure)
next
  case (3 x)
  then have x: "0 < x" "x < 1" by simp_all
  have c: "\<lceil>x\<rceil> = 1" using x by (simp add: ceiling_eq_iff)
  have d: "\<lceil>x * 2\<rceil> \<le> 2" using x by (simp add: ceiling_le_iff)
  let ?y = "1 / x"
  from x have y: "1 < ?y" by (simp add: field_simps)
  have a: "\<lceil>?y / 2\<rceil> < \<lceil>?y\<rceil>"
  proof -
    have "?y / 2 \<le> of_int \<lceil>?y\<rceil> / 2" by (simp add: divide_right_mono)
    also have "\<dots> \<le> of_int (\<lceil>?y\<rceil> - 1)"
    proof -
      from y have "2 \<le> \<lceil>?y\<rceil>" by (simp add: le_ceiling_iff)
      then have "(2::rat) \<le> of_int \<lceil>?y\<rceil>" by (metis of_int_le_iff of_int_numeral)
      then show ?thesis by simp
    qed
    finally have "\<lceil>?y / 2\<rceil> \<le> \<lceil>?y\<rceil> - 1" by (simp only: ceiling_le_iff)
    then show ?thesis by simp
  qed
  have e: "1 / (x * 2) = ?y / 2" by simp
  from x have p: "0 < \<lceil>?y / 2\<rceil>" by (simp add: less_ceiling_iff)
  have "nat \<lceil>x * 2\<rceil> + 2 * nat \<lceil>1 / (x * 2)\<rceil> < nat \<lceil>x\<rceil> + 2 * nat \<lceil>1 / x\<rceil>"
    using a c d p unfolding e by linarith
  then show ?case by (simp only: in_measure)
qed

definition nearestDouble :: "rat \<Rightarrow> number" where
  \<comment> \<open>Round to nearest, ties to even, on a significand of 53 bits; below \<open>2^-1022\<close> the
      spacing stays that of the subnormal doubles, \<open>2^-1074\<close>.\<close>
  "nearestDouble x =
     (if x = 0 then 0
      else 2 powi (max (binade \<bar>x\<bar>) (- 1022) - 52)
             * of_int (roundHalfEven (x / 2 powi (max (binade \<bar>x\<bar>) (- 1022) - 52))))"

definition js_add :: "number \<Rightarrow> number \<Rightarrow> number" where
  \<comment> \<open>\<^verbatim>\<open>x + y\<close>\<close>
  "js_add x y = nearestDouble (x + y)"

definition js_sub :: "number \<Rightarrow> number \<Rightarrow> number" where
  \<comment> \<open>\<^verbatim>\<open>x - y\<close>\<close>
  "js_sub x y = nearestDouble (x - y)"

definition js_mul :: "number \<Rightarrow> number \<Rightarrow> number" where
  \<comment> \<open>\<^verbatim>\<open>x * y\<close>\<close>
  "js_mul x y = nearestDouble (x * y)"

definition js_div :: "number \<Rightarrow> number \<Rightarrow> number" where
  \<comment> \<open>\<^verbatim>\<open>x / y\<close>, for a divisor that is not zero\<close>
  "js_div x y = nearestDouble (x / y)"

definition repeat :: "char \<Rightarrow> nat \<Rightarrow> string" where
  \<comment> \<open>\<^verbatim>\<open>'0'.repeat(n)\<close>\<close>
  "repeat c n = replicate n c"

definition substring0 :: "string \<Rightarrow> nat \<Rightarrow> string" where
  \<comment> \<open>\<^verbatim>\<open>s.substring(0, n)\<close>\<close>
  "substring0 s n = take n s"

definition startsWith :: "string \<Rightarrow> string \<Rightarrow> bool" where
  \<comment> \<open>\<^verbatim>\<open>s.startsWith(t)\<close>\<close>
  "startsWith s t = (take (length t) s = t)"

definition relativeIndex :: "int \<Rightarrow> nat \<Rightarrow> nat" where
  \<comment> \<open>How \<^verbatim>\<open>Array.prototype.slice\<close> reads an index: a negative one counts from the end.\<close>
  "relativeIndex i len = (if i < 0 then nat (max (int len + i) 0) else min (nat i) len)"

definition slice :: "'a list \<Rightarrow> int \<Rightarrow> int \<Rightarrow> 'a list" where
  \<comment> \<open>\<^verbatim>\<open>xs.slice(start, end)\<close>\<close>
  "slice xs start end =
     take (relativeIndex end (length xs) - relativeIndex start (length xs))
          (drop (relativeIndex start (length xs)) xs)"

definition sliceFrom :: "'a list \<Rightarrow> int \<Rightarrow> 'a list" where
  \<comment> \<open>\<^verbatim>\<open>xs.slice(start)\<close>\<close>
  "sliceFrom xs start = drop (relativeIndex start (length xs)) xs"

section \<open>Transaction\<close>

datatype TransactionType = REGULAR | REWARD | GENESIS

record Transaction =
  amount :: number
  payer :: string
  payee :: string
  fee :: number
  type :: TransactionType
  timestamp :: number
  signature :: "string option"

definition new_Transaction ::
  "number \<Rightarrow> string \<Rightarrow> string \<Rightarrow> number \<Rightarrow> TransactionType \<Rightarrow> number \<Rightarrow> Transaction" where
  \<comment> \<open>The constructor; the last argument is the timestamp, \<^verbatim>\<open>Date.now()\<close> when the caller
      gives none. A new transaction carries no signature.\<close>
  "new_Transaction a p q f k t =
     \<lparr>amount = a, payer = p, payee = q, fee = f, type = k, timestamp = t, signature = None\<rparr>"

definition getTotalCost :: "Transaction \<Rightarrow> number" where
  "getTotalCost tx = js_add (amount tx) (fee tx)"

definition setSignature :: "string \<Rightarrow> Transaction \<Rightarrow> Transaction" where
  "setSignature sig tx = tx\<lparr>signature := Some sig\<rparr>"

type_synonym ITransaction = "number \<times> string \<times> string \<times> number \<times> number \<times> string option"

definition toJSON :: "Transaction \<Rightarrow> ITransaction" where
  \<comment> \<open>amount, payer, payee, fee, timestamp, signature: the type is not serialised.\<close>
  "toJSON tx = (amount tx, payer tx, payee tx, fee tx, timestamp tx, signature tx)"

definition createReward :: "number \<Rightarrow> string \<Rightarrow> number \<Rightarrow> Transaction" where
  \<comment> \<open>First argument: the clock at creation.\<close>
  "createReward now minerAddr rewardAmount =
     new_Transaction rewardAmount ''MINING_REWARD'' minerAddr 0 REWARD now"

definition createGenesis :: "number \<Rightarrow> Transaction" where
  "createGenesis now = new_Transaction 100 ''genesis'' ''satoshi'' 0 GENESIS now"

section \<open>Block\<close>

record Block =
  prevHash :: string
  transactions :: "Transaction list"
  minerAddress :: string
  ts :: number
  nonce :: number
  hash_cache :: "string option"

text \<open>
  \<^verbatim>\<open>hash_cache\<close> is the private field \<^verbatim>\<open>_hash\<close>. The digest (SHA-256 of the JSON text
  of the five fields, printed in hexadecimal) comes from the platform's crypto library;
  it is a parameter of the model, a function of exactly the data that is serialised.
\<close>

type_synonym digest = "string \<times> ITransaction list \<times> number \<times> number \<times> string \<Rightarrow> string"

definition new_Block :: "string \<Rightarrow> Transaction list \<Rightarrow> string \<Rightarrow> number \<Rightarrow> number \<Rightarrow> Block" where
  \<comment> \<open>The last two arguments are \<^verbatim>\<open>Date.now()\<close> and the random start nonce.\<close>
  "new_Block ph txs miner now seed =
     \<lparr>prevHash = ph, transactions = txs, minerAddress = miner, ts = now, nonce = seed,
      hash_cache = None\<rparr>"

definition calculateHash :: "digest \<Rightarrow> Block \<Rightarrow> string" where
  "calculateHash D b =
     D (prevHash b, map toJSON (transactions b), ts b, nonce b, minerAddress b)"

definition hash :: "digest \<Rightarrow> Block \<Rightarrow> string" where
  \<comment> \<open>The getter: \<^verbatim>\<open>if (this._hash) return this._hash\<close>; an empty string is falsy.\<close>
  "hash D b =
     (case hash_cache b of
        Some h \<Rightarrow> if h \<noteq> [] then h else calculateHash D b
      | None \<Rightarrow> calculateHash D b)"

definition setHash :: "string \<Rightarrow> Block \<Rightarrow> Block" where
  "setHash h b = b\<lparr>hash_cache := Some h\<rparr>"

section \<open>Mempool\<close>

record IPendingTransaction =
  transaction :: Transaction
  priority :: number

record MempoolController =
  pendingTransactions :: "IPendingTransaction list"
  maxPoolSize :: nat

datatype fault = TypeError

definition new_MempoolController :: "nat \<Rightarrow> MempoolController" where
  "new_MempoolController n = \<lparr>pendingTransactions = [], maxPoolSize = n\<rparr>"

definition calculatePriority :: "number \<Rightarrow> Transaction \<Rightarrow> number" where
  \<comment> \<open>First argument: \<^verbatim>\<open>Date.now()\<close>. For \<^verbatim>\<open>age = -1\<close> the source divides by zero and
      gets an infinity or NaN, which no rational stands for; nothing below is stated
      at such an input.\<close>
  "calculatePriority now tx =
     js_div (js_mul (fee tx) 1000) (js_add (js_div (js_sub now (timestamp tx)) 1000) 1)"

definition sortByPriority :: "IPendingTransaction list \<Rightarrow> IPendingTransaction list" where
  \<comment> \<open>\<^verbatim>\<open>sort((a, b) => b.priority - a.priority)\<close>: stable, highest priority first. The
      comparator's difference is rounded, but a difference of two doubles that is not
      zero does not round to zero, so its sign is that of the exact difference.\<close>
  "sortByPriority ps = sort_key (\<lambda>p. - priority p) ps"

definition getLowestPriority :: "MempoolController \<Rightarrow> fault + IPendingTransaction" where
  \<comment> \<open>The last slot; on an empty pool the read is \<^verbatim>\<open>undefined\<close> and the use of its
      priority throws.\<close>
  "getLowestPriority m =
     (if pendingTransactions m = [] then Inl TypeError else Inr (last (pendingTransactions m)))"

definition removeLowestPriority :: "MempoolController \<Rightarrow> MempoolController" where
  "removeLowestPriority m = m\<lparr>pendingTransactions := butlast (pendingTransactions m)\<rparr>"

definition push_sorted :: "number \<Rightarrow> Transaction \<Rightarrow> MempoolController \<Rightarrow> MempoolController" where
  \<comment> \<open>The tail of \<^verbatim>\<open>addTransaction\<close>: push the entry, then sort.\<close>
  "push_sorted now tx m =
     m\<lparr>pendingTransactions :=
         sortByPriority (pendingTransactions m @
           [\<lparr>transaction = tx, priority = calculatePriority now tx\<rparr>])\<rparr>"

definition addTransaction ::
  "number \<Rightarrow> Transaction \<Rightarrow> MempoolController \<Rightarrow> fault + (bool \<times> MempoolController)" where
  "addTransaction now tx m =
     (if length (pendingTransactions m) \<ge> maxPoolSize m then
        (case getLowestPriority m of
           Inl e \<Rightarrow> Inl e
         | Inr lowestPriority \<Rightarrow>
             if fee tx \<le> priority lowestPriority then Inr (False, m)
             else Inr (True, push_sorted now tx (removeLowestPriority m)))
      else Inr (True, push_sorted now tx m))"

definition getTransactionsForBlock ::
  "int \<Rightarrow> MempoolController \<Rightarrow> Transaction list \<times> MempoolController" where
  "getTransactionsForBlock maxTransactions m =
     (map transaction (slice (pendingTransactions m) 0 maxTransactions),
      m\<lparr>pendingTransactions := sliceFrom (pendingTransactions m) maxTransactions\<rparr>)"

definition getPendingCount :: "MempoolController \<Rightarrow> nat" where
  "getPendingCount m = length (pendingTransactions m)"

section \<open>The ledger engine\<close>

record IMiningResult =
  solution :: number
  attempts :: number
  found_hash :: string

record IBalanceHistory =
  address :: string
  balance :: number
  block_ts :: number
  blockHeight :: nat

record ChainController =
  chain :: "Block list"
  mempool :: MempoolController
  balances :: "(string \<times> number) list"
  difficulty :: nat

text \<open>
  \<^verbatim>\<open>balances\<close> is a \<^verbatim>\<open>Map<string, number>\<close>: an association list in insertion order,
  where setting a key that is present replaces its value in place. \<^verbatim>\<open>found_hash\<close> and
  \<^verbatim>\<open>block_ts\<close> are the fields \<^verbatim>\<open>hash\<close> and \<^verbatim>\<open>timestamp\<close> of the two result
  interfaces.
\<close>

definition miningReward :: number where
  "miningReward = 50"

definition maxTransactionsPerBlock :: int where
  "maxTransactionsPerBlock = 10"

definition getBalance :: "ChainController \<Rightarrow> string \<Rightarrow> number" where
  \<comment> \<open>\<^verbatim>\<open>this.balances.get(address) ?? 0\<close>\<close>
  "getBalance s a = (case map_of (balances s) a of Some v \<Rightarrow> v | None \<Rightarrow> 0)"

definition updateBalance :: "string \<Rightarrow> number \<Rightarrow> ChainController \<Rightarrow> ChainController" where
  "updateBalance a x s =
     s\<lparr>balances := AList.update a (js_add (getBalance s a) x) (balances s)\<rparr>"

definition createGenesisBlock ::
  "number \<Rightarrow> number \<Rightarrow> number \<Rightarrow> ChainController \<Rightarrow> ChainController" where
  \<comment> \<open>The clock when the transaction is made, the clock when the block is made, the
      block's random start nonce.\<close>
  "createGenesisBlock txNow blockNow seed s =
     updateBalance ''satoshi'' 100
       (s\<lparr>chain := chain s @ [new_Block [] [createGenesis txNow] ''GENESIS'' blockNow seed]\<rparr>)"

definition new_ChainController :: "number \<Rightarrow> number \<Rightarrow> number \<Rightarrow> ChainController" where
  "new_ChainController txNow blockNow seed =
     createGenesisBlock txNow blockNow seed
       \<lparr>chain = [], mempool = new_MempoolController 100, balances = [], difficulty = 4\<rparr>"

definition getLastBlock :: "ChainController \<Rightarrow> fault + Block" where
  \<comment> \<open>\<^verbatim>\<open>this.chain[this.chain.length - 1]\<close>; on an empty chain the read is
      \<^verbatim>\<open>undefined\<close> and the caller's \<^verbatim>\<open>.hash\<close> throws.\<close>
  "getLastBlock s = (if chain s = [] then Inl TypeError else Inr (last (chain s)))"

definition getChainLength :: "ChainController \<Rightarrow> nat" where
  "getChainLength s = length (chain s)"

definition getPendingTransactionCount :: "ChainController \<Rightarrow> nat" where
  "getPendingTransactionCount s = getPendingCount (mempool s)"

definition setDifficulty :: "int \<Rightarrow> ChainController \<Rightarrow> ChainController" where
  "setDifficulty d s = s\<lparr>difficulty := nat (max 1 (min 8 d))\<rparr>"

subsection \<open>Proof of work\<close>

definition meetsTarget :: "nat \<Rightarrow> string \<Rightarrow> bool" where
  \<comment> \<open>\<^verbatim>\<open>hash.substring(0, this.difficulty) === '0'.repeat(this.difficulty)\<close>\<close>
  "meetsTarget d h = (substring0 h d = repeat CHR ''0'' d)"

text \<open>
  The search loop of \<^verbatim>\<open>mine\<close>: the block, \<^verbatim>\<open>solution\<close> and \<^verbatim>\<open>attempts\<close> are its
  state. It has no exit but a hash that meets the target, so it is a partial function:
  \<open>None\<close> is a search that never ends.
\<close>

partial_function (option) mine_loop ::
  "digest \<Rightarrow> nat \<Rightarrow> Block \<Rightarrow> number \<Rightarrow> number \<Rightarrow> (Block \<times> IMiningResult) option" where
  "mine_loop D d block sol att =
     (if meetsTarget d (calculateHash D (block\<lparr>nonce := js_add (nonce block) sol\<rparr>))
      then Some (setHash (calculateHash D (block\<lparr>nonce := js_add (nonce block) sol\<rparr>))
                   (block\<lparr>nonce := js_add (nonce block) sol\<rparr>),
                 \<lparr>solution = sol, attempts = js_add att 1,
                  found_hash = calculateHash D (block\<lparr>nonce := js_add (nonce block) sol\<rparr>)\<rparr>)
      else mine_loop D d (block\<lparr>nonce := js_add (nonce block) sol\<rparr>)
             (js_add sol 1) (js_add att 1))"

definition mine :: "digest \<Rightarrow> ChainController \<Rightarrow> Block \<Rightarrow> (Block \<times> IMiningResult) option" where
  "mine D s block = mine_loop D (difficulty s) block 1 0"

fun foundWithin :: "digest \<Rightarrow> nat \<Rightarrow> Block \<Rightarrow> number \<Rightarrow> nat \<Rightarrow> bool" where
  \<comment> \<open>The search started at this block and this \<^verbatim>\<open>solution\<close> meets the target in at
      most \<open>k\<close> attempts.\<close>
  "foundWithin D d block sol 0 = False"
| "foundWithin D d block sol (Suc k) =
     (meetsTarget d (calculateHash D (block\<lparr>nonce := js_add (nonce block) sol\<rparr>))
      \<or> foundWithin D d (block\<lparr>nonce := js_add (nonce block) sol\<rparr>) (js_add sol 1) k)"

subsection \<open>Submitting a transaction\<close>

definition validateTransaction :: "ChainController \<Rightarrow> Transaction \<Rightarrow> bool" where
  \<comment> \<open>The \<^verbatim>\<open>valid\<close> field of the result; the reason is only printed.\<close>
  "validateTransaction s tx =
     (if type tx = REWARD \<or> type tx = GENESIS then True
      else if getBalance s (payer tx) < getTotalCost tx then False
      else if amount tx \<le> 0 then False
      else if fee tx < 0 then False
      else True)"

definition addTransactionToMempool ::
  "number \<Rightarrow> Transaction \<Rightarrow> ChainController \<Rightarrow> fault + (bool \<times> ChainController)" where
  \<comment> \<open>First argument: the clock read by the mempool when it computes the priority.\<close>
  "addTransactionToMempool now tx s =
     (if \<not> validateTransaction s tx then Inr (False, s)
      else (case addTransaction now tx (mempool s) of
              Inl e \<Rightarrow> Inl e
            | Inr (ok, m) \<Rightarrow> Inr (ok, s\<lparr>mempool := m\<rparr>)))"

subsection \<open>Mining a block\<close>

definition processTransaction :: "Transaction \<Rightarrow> ChainController \<Rightarrow> ChainController" where
  \<comment> \<open>The body of the loop of \<^verbatim>\<open>processBlockTransactions\<close>.\<close>
  "processTransaction tx s =
     (if type tx \<noteq> REWARD \<and> type tx \<noteq> GENESIS
      then updateBalance (payee tx) (amount tx)
             (updateBalance (payer tx) (- js_add (amount tx) (fee tx)) s)
      else updateBalance (payee tx) (amount tx) s)"

definition processBlockTransactions :: "Block \<Rightarrow> ChainController \<Rightarrow> ChainController" where
  "processBlockTransactions block s = foldl (\<lambda>st tx. processTransaction tx st) s (transactions block)"

definition totalFeesOf :: "Transaction list \<Rightarrow> number" where
  \<comment> \<open>\<^verbatim>\<open>transactions.reduce((sum, tx) => sum + tx.fee, 0)\<close>\<close>
  "totalFeesOf txs = foldl (\<lambda>sum tx. js_add sum (fee tx)) 0 txs"

definition candidateBlock ::
  "digest \<Rightarrow> number \<Rightarrow> number \<Rightarrow> number \<Rightarrow> string \<Rightarrow> Block \<Rightarrow> Transaction list \<Rightarrow> Block" where
  \<comment> \<open>The block \<^verbatim>\<open>mineBlock\<close> builds from the chain tip and the drained transactions,
      before the search.\<close>
  "candidateBlock D txNow blockNow seed minerAddr tip txs =
     new_Block (hash D tip)
       (txs @ [createReward txNow minerAddr (js_add miningReward (totalFeesOf txs))])
       minerAddr blockNow seed"

definition mineBlock ::
  "digest \<Rightarrow> number \<Rightarrow> number \<Rightarrow> number \<Rightarrow> string \<Rightarrow> ChainController
     \<Rightarrow> (fault + (Block \<times> ChainController)) option" where
  \<comment> \<open>After the digest: the clock when the reward is made, the clock when the block is
      made, the block's random start nonce. \<open>None\<close>: the search never ends.\<close>
  "mineBlock D txNow blockNow seed minerAddr s =
     (case (if getPendingCount (mempool s) > 0
            then getTransactionsForBlock maxTransactionsPerBlock (mempool s)
            else ([], mempool s)) of
        (txs, m) \<Rightarrow>
          (case getLastBlock s of
             Inl e \<Rightarrow> Some (Inl e)
           | Inr tip \<Rightarrow>
               (case mine D s (candidateBlock D txNow blockNow seed minerAddr tip txs) of
                  None \<Rightarrow> None
                | Some (newBlock, res) \<Rightarrow>
                    Some (Inr (newBlock,
                      processBlockTransactions newBlock
                        (s\<lparr>chain := chain s @ [newBlock], mempool := m\<rparr>))))))"

subsection \<open>Queries\<close>

definition historyStep :: "string \<Rightarrow> number \<Rightarrow> Transaction \<Rightarrow> number" where
  \<comment> \<open>The body of the inner loop of \<^verbatim>\<open>getBalanceHistory\<close>.\<close>
  "historyStep a bal tx =
     (let bal1 = (if payer tx = a then js_sub bal (getTotalCost tx) else bal)
      in if payee tx = a then js_add bal1 (amount tx) else bal1)"

fun historyFrom :: "string \<Rightarrow> number \<Rightarrow> nat \<Rightarrow> Block list \<Rightarrow> IBalanceHistory list" where
  \<comment> \<open>The outer loop, from block height \<open>i\<close> with the running balance.\<close>
  "historyFrom a bal i [] = []"
| "historyFrom a bal i (block # rest) =
     \<lparr>address = a, balance = foldl (historyStep a) bal (transactions block),
      block_ts = ts block, blockHeight = i\<rparr>
     # historyFrom a (foldl (historyStep a) bal (transactions block)) (i + 1) rest"

definition getBalanceHistory :: "ChainController \<Rightarrow> string \<Rightarrow> IBalanceHistory list" where
  "getBalanceHistory s a = historyFrom a 0 0 (chain s)"

function isChainValidFrom :: "digest \<Rightarrow> ChainController \<Rightarrow> nat \<Rightarrow> bool" where
  "isChainValidFrom D s i =
     (if i < length (chain s) then
        (if prevHash (chain s ! i) \<noteq> hash D (chain s ! (i - 1)) then False
         else if \<not> startsWith (hash D (chain s ! i)) (repeat CHR ''0'' (difficulty s)) then False
         else isChainValidFrom D s (i + 1))
      else True)"
  by pat_completeness auto
termination
  by (relation "measure (\<lambda>(D, s, i). length (chain s) - i)") auto

definition isChainValid :: "digest \<Rightarrow> ChainController \<Rightarrow> bool" where
  "isChainValid D s = isChainValidFrom D s 1"

section \<open>Runs of the engine and what they add up to\<close>

text \<open>
  The states an engine can be in: the constructor's, and from there any number of
  submitted transactions (each of which the caller's policy \<open>P\<close> admits), mined blocks
  that were returned, and changes of the difficulty.
\<close>

inductive reachable :: "digest \<Rightarrow> (Transaction \<Rightarrow> bool) \<Rightarrow> ChainController \<Rightarrow> bool"
  for D :: digest and P :: "Transaction \<Rightarrow> bool" where
  fresh: "reachable D P (new_ChainController txNow blockNow seed)"
| submitted: "reachable D P s \<Longrightarrow> P tx \<Longrightarrow> addTransactionToMempool now tx s = Inr (ok, s')
     \<Longrightarrow> reachable D P s'"
| mined: "reachable D P s \<Longrightarrow> mineBlock D txNow blockNow seed minerAddr s = Some (Inr (newBlock, s'))
     \<Longrightarrow> reachable D P s'"
| retargeted: "reachable D P s \<Longrightarrow> reachable D P (setDifficulty d s)"

definition isRegular :: "Transaction \<Rightarrow> bool" where
  "isRegular tx = (type tx = REGULAR)"

definition totalBalance :: "ChainController \<Rightarrow> number" where
  \<comment> \<open>The sum of the values of the balance table.\<close>
  "totalBalance s = sum_list (map snd (balances s))"

definition confirmed :: "ChainController \<Rightarrow> Transaction list" where
  \<comment> \<open>Every transaction of the chain, in chain order.\<close>
  "confirmed s = concat (map transactions (chain s))"

definition rewardsCredited :: "ChainController \<Rightarrow> number" where
  "rewardsCredited s = sum_list (map amount (filter (\<lambda>tx. type tx = REWARD) (confirmed s)))"

definition feesPaid :: "ChainController \<Rightarrow> number" where
  "feesPaid s = sum_list (map fee (filter (\<lambda>tx. type tx = REGULAR) (confirmed s)))"

definition wholeRegular :: "Transaction \<Rightarrow> bool" where
  \<comment> \<open>A REGULAR transaction in whole units.\<close>
  "wholeRegular tx = (type tx = REGULAR \<and> amount tx \<in> \<int> \<and> fee tx \<in> \<int>)"

definition weight :: "Transaction \<Rightarrow> rat" where
  "weight tx = 2 * \<bar>amount tx\<bar> + \<bar>fee tx\<bar>"

definition traffic :: "ChainController \<Rightarrow> rat" where
  \<comment> \<open>Twice the amounts plus the fees of everything confirmed: a bound on every value
      the replay of the chain has computed.\<close>
  "traffic s = sum_list (map weight (confirmed s))"

definition tableVolume :: "ChainController \<Rightarrow> rat" where
  \<comment> \<open>The sum of the magnitudes of the balance table.\<close>
  "tableVolume s = sum_list (map (\<lambda>e. \<bar>snd e\<bar>) (balances s))"

definition tableWhole :: "ChainController \<Rightarrow> bool" where
  "tableWhole s = list_all (\<lambda>e. snd e \<in> \<int>) (balances s)"

definition descending :: "IPendingTransaction list \<Rightarrow> bool" where
  \<comment> \<open>Highest priority first.\<close>
  "descending ps = sorted_wrt (\<lambda>p q. priority p \<ge> priority q) ps"

section \<open>Sample inputs\<close>

definition zeroDigest :: digest where
  \<comment> \<open>A digest whose every output is sixty-four zeros: each search ends at its first
      attempt. The balances of a run do not depend on the digest.\<close>
  "zeroDigest x = replicate 64 CHR ''0''"

fun nonceDigest :: digest where
  \<comment> \<open>A digest that is never empty and differs from nonce to nonce.\<close>
  "nonceDigest (ph, txs, t, n, miner) = CHR ''a'' # replicate (nat \<lfloor>n\<rfloor>) CHR ''1''"

definition freshEngine :: ChainController where
  "freshEngine = new_ChainController 0 0 0"

definition unsignedTransfer :: Transaction where
  \<comment> \<open>Ten units from the genesis payee to bob, fee one, never signed.\<close>
  "unsignedTransfer = new_Transaction 10 ''satoshi'' ''bob'' 1 REGULAR 0"

definition pendingTransfer :: ChainController where
  "pendingTransfer =
     freshEngine\<lparr>mempool :=
       \<lparr>pendingTransactions = [\<lparr>transaction = unsignedTransfer, priority = 1000\<rparr>],
        maxPoolSize = 100\<rparr>\<rparr>"

definition transferBlock :: Block where
  "transferBlock =
     \<lparr>prevHash = replicate 64 CHR ''0'',
      transactions = [unsignedTransfer, createReward 0 ''miner'' 51],
      minerAddress = ''miner'', ts = 0, nonce = 1,
      hash_cache = Some (replicate 64 CHR ''0'')\<rparr>"

definition afterTransfer :: ChainController where
  "afterTransfer =
     \<lparr>chain = chain freshEngine @ [transferBlock],
      mempool = new_MempoolController 100,
      balances = [(''satoshi'', 89), (''bob'', 10), (''miner'', 51)],
      difficulty = 4\<rparr>"

definition dbl_0_4 :: number where
  \<comment> \<open>The double written \<^verbatim>\<open>0.4\<close>.\<close>
  "dbl_0_4 = 3602879701896397 / 9007199254740992"

definition dbl_99_6 :: number where
  \<comment> \<open>The double written \<^verbatim>\<open>99.6\<close>.\<close>
  "dbl_99_6 = 3504363460047667 / 35184372088832"

definition dbl_50_4 :: number where
  \<comment> \<open>The double written \<^verbatim>\<open>50.4\<close>.\<close>
  "dbl_50_4 = 7093169413108531 / 140737488355328"

definition dbl_100_4 :: number where
  \<comment> \<open>The double written \<^verbatim>\<open>100.4\<close>.\<close>
  "dbl_100_4 = 3532510957718733 / 35184372088832"

definition tinyFee :: number where
  "tinyFee = 1 / 2 ^ 60"

definition tinyPriority :: number where
  \<comment> \<open>\<open>1000 * 2^-60\<close>\<close>
  "tinyPriority = 125 / 2 ^ 57"

definition fractionalTransfer :: Transaction where
  \<comment> \<open>0.4 units from the genesis payee to the miner, no fee.\<close>
  "fractionalTransfer = new_Transaction dbl_0_4 ''satoshi'' ''miner'' 0 REGULAR 0"

definition pendingFraction :: ChainController where
  "pendingFraction =
     freshEngine\<lparr>mempool :=
       \<lparr>pendingTransactions = [\<lparr>transaction = fractionalTransfer, priority = 0\<rparr>],
        maxPoolSize = 100\<rparr>\<rparr>"

definition fractionBlock :: Block where
  "fractionBlock =
     \<lparr>prevHash = replicate 64 CHR ''0'',
      transactions = [fractionalTransfer, createReward 0 ''miner'' 50],
      minerAddress = ''miner'', ts = 0, nonce = 1,
      hash_cache = Some (replicate 64 CHR ''0'')\<rparr>"

definition afterFraction :: ChainController where
  "afterFraction =
     \<lparr>chain = chain freshEngine @ [fractionBlock],
      mempool = new_MempoolController 100,
      balances = [(''satoshi'', dbl_99_6), (''miner'', dbl_50_4)],
      difficulty = 4\<rparr>"

definition rewardBlock :: Block where
  "rewardBlock =
     \<lparr>prevHash = replicate 64 CHR ''0'',
      transactions = [createReward 0 ''miner'' 50],
      minerAddress = ''miner'', ts = 0, nonce = 1,
      hash_cache = Some (replicate 64 CHR ''0'')\<rparr>"

definition afterReward :: ChainController where
  "afterReward =
     \<lparr>chain = chain freshEngine @ [fractionBlock, rewardBlock],
      mempool = new_MempoolController 100,
      balances = [(''satoshi'', dbl_99_6), (''miner'', dbl_100_4)],
      difficulty = 4\<rparr>"

definition tinyFeeTransfer :: Transaction where
  \<comment> \<open>The whole genesis balance, with a fee of \<open>2^-60\<close>.\<close>
  "tinyFeeTransfer = new_Transaction 100 ''satoshi'' ''bob'' tinyFee REGULAR 0"

definition pendingTinyFee :: ChainController where
  "pendingTinyFee =
     freshEngine\<lparr>mempool :=
       \<lparr>pendingTransactions =
          [\<lparr>transaction = tinyFeeTransfer, priority = tinyPriority\<rparr>],
        maxPoolSize = 100\<rparr>\<rparr>"

definition feeOne :: Transaction where
  "feeOne = new_Transaction 5 ''alice'' ''bob'' 1 REGULAR 0"

definition feeTwo :: Transaction where
  "feeTwo = new_Transaction 5 ''carol'' ''bob'' 2 REGULAR 0"

definition fullPool :: MempoolController where
  \<comment> \<open>A pool of capacity two, holding two fee-one transactions of age zero.\<close>
  "fullPool =
     \<lparr>pendingTransactions =
        [\<lparr>transaction = feeOne, priority = 1000\<rparr>, \<lparr>transaction = feeOne, priority = 1000\<rparr>],
      maxPoolSize = 2\<rparr>"

definition fullDefaultPool :: MempoolController where
  \<comment> \<open>The engine's pool (capacity 100) filled with fee-one transactions of age zero.\<close>
  "fullDefaultPool =
     \<lparr>pendingTransactions = replicate 100 \<lparr>transaction = feeOne, priority = 1000\<rparr>,
      maxPoolSize = 100\<rparr>"

definition threePool :: MempoolController where
  \<comment> \<open>Fees five, three and one, highest priority first.\<close>
  "threePool =
     \<lparr>pendingTransactions =
        [\<lparr>transaction = new_Transaction 1 ''a'' ''b'' 5 REGULAR 0, priority = 5000\<rparr>,
         \<lparr>transaction = new_Transaction 1 ''a'' ''b'' 3 REGULAR 0, priority = 3000\<rparr>,
         \<lparr>transaction = new_Transaction 1 ''a'' ''b'' 1 REGULAR 0, priority = 1000\<rparr>],
      maxPoolSize = 100\<rparr>"

definition bareBlock :: Block where
  "bareBlock = new_Block [] [] ''m'' 0 0"

section \<open>Double arithmetic\<close>

declare binade.simps [simp del]
declare isChainValidFrom.simps [simp del]

lemma two_powi_Suc: "(2::rat) powi (e + 1) = 2 * 2 powi e"
  by (simp add: power_int_add)

lemma binade_bounds:
  "0 < x \<Longrightarrow> 2 powi binade x \<le> x \<and> x < 2 powi (binade x + 1)"
proof (induction x rule: binade.induct)
  case (1 x)
  show ?case
  proof (cases "2 \<le> x")
    case True
    with 1 have ih: "2 powi binade (x / 2) \<le> x / 2" "x / 2 < 2 powi (binade (x / 2) + 1)"
      by simp_all
    from True have b: "binade x = binade (x / 2) + 1" by (subst binade.simps) simp
    from ih show ?thesis unfolding b two_powi_Suc by simp
  next
    case False
    show ?thesis
    proof (cases "x < 1")
      case True
      with 1 False
      have ih: "2 powi binade (x * 2) \<le> x * 2" "x * 2 < 2 powi (binade (x * 2) + 1)"
        by simp_all
      from True 1(3) have "binade x = binade (x * 2) - 1" by (subst binade.simps) simp
      then have b: "binade (x * 2) = binade x + 1" by simp
      from ih show ?thesis unfolding b two_powi_Suc by simp
    next
      case f: False
      with False 1(3) have "binade x = 0" by (subst binade.simps) simp
      with False f show ?thesis by simp
    qed
  qed
qed

lemma binade_unique:
  assumes "0 < x" "2 powi e \<le> x" "x < 2 powi (e + 1)"
  shows "binade x = e"
proof (rule ccontr)
  assume ne: "binade x \<noteq> e"
  from binade_bounds[OF assms(1)]
  have b: "2 powi binade x \<le> x" "x < 2 powi (binade x + 1)" by simp_all
  show False
  proof (cases "binade x < e")
    case True
    then have "(2::rat) powi (binade x + 1) \<le> 2 powi e"
      by (intro power_int_increasing) simp_all
    with b(2) assms(2) show False by simp
  next
    case False
    with ne have "(2::rat) powi (e + 1) \<le> 2 powi binade x"
      by (intro power_int_increasing) simp_all
    with b(1) assms(3) show False by simp
  qed
qed

lemma roundHalfEven_of_int [simp]: "roundHalfEven (of_int m) = m"
  by (simp add: roundHalfEven_def)

lemma floor_numeral_divide [simp]:
  "\<lfloor>numeral a / numeral b :: rat\<rfloor> = numeral a div numeral b"
  by (metis floor_divide_of_int_eq of_int_numeral)

lemma floor_neg_numeral_divide [simp]:
  "\<lfloor>- (numeral a / numeral b) :: rat\<rfloor> = - numeral a div numeral b"
  by (metis floor_divide_of_int_eq of_int_numeral of_int_minus minus_divide_left)

text \<open>The double nearest to \<open>x\<close>, once the binade of \<open>x\<close> is known.\<close>

lemma nearestDouble_at:
  assumes "x \<noteq> 0" "2 powi e \<le> \<bar>x\<bar>" "\<bar>x\<bar> < 2 powi (e + 1)" "- 1022 \<le> e"
  shows "nearestDouble x = 2 powi (e - 52) * of_int (roundHalfEven (x / 2 powi (e - 52)))"
proof -
  from assms(1) have "0 < \<bar>x\<bar>" by simp
  from binade_unique[OF this assms(2,3)] assms(1,4) show ?thesis
    by (simp add: nearestDouble_def)
qed

text \<open>An integer of magnitude at most \<open>2^53\<close> is a double.\<close>

lemma nearestDouble_of_int:
  assumes "\<bar>n\<bar> \<le> 2 ^ 53"
  shows "nearestDouble (of_int n) = of_int n"
proof (cases "n = 0")
  case True
  then show ?thesis by (simp add: nearestDouble_def)
next
  case False
  let ?x = "of_int n :: rat"
  let ?e = "binade \<bar>?x\<bar>"
  from False have pos: "0 < \<bar>?x\<bar>" by simp
  from binade_bounds[OF pos] have b: "2 powi ?e \<le> \<bar>?x\<bar>" "\<bar>?x\<bar> < 2 powi (?e + 1)"
    by simp_all
  from False have "1 \<le> \<bar>n\<bar>" by simp
  then have one: "(1::rat) \<le> \<bar>?x\<bar>" by (metis of_int_abs of_int_1 of_int_le_iff)
  have e0: "0 \<le> ?e"
  proof (rule ccontr)
    assume "\<not> 0 \<le> ?e"
    then have "?e + 1 \<le> 0" by simp
    then have "(2::rat) powi (?e + 1) \<le> 2 powi 0" by (intro power_int_increasing) simp_all
    with b(2) one show False by simp
  qed
  from assms have le: "\<bar>?x\<bar> \<le> 2 ^ 53"
    by (metis of_int_abs of_int_le_iff of_int_numeral of_int_power)
  have e53: "?e \<le> 53"
  proof (rule ccontr)
    assume "\<not> ?e \<le> 53"
    then have "(2::rat) powi 54 \<le> 2 powi ?e" by (intro power_int_increasing) simp_all
    with b(1) le show False by simp
  qed
  have m: "max ?e (- 1022) = ?e" using e0 by simp
  show ?thesis
  proof (cases "?e \<le> 52")
    case True
    define k where "k = nat (52 - ?e)"
    have "?e - 52 = - int k" using True by (simp add: k_def)
    then have u: "(2::rat) powi (?e - 52) = 1 / 2 ^ k"
      by (simp add: power_int_minus inverse_eq_divide)
    have "?x / (1 / 2 ^ k) = of_int (n * 2 ^ k)" by simp
    then have r: "roundHalfEven (?x / (1 / 2 ^ k)) = n * 2 ^ k"
      by (simp only: roundHalfEven_of_int)
    have "nearestDouble ?x = 1 / 2 ^ k * of_int (roundHalfEven (?x / (1 / 2 ^ k)))"
      using \<open>n \<noteq> 0\<close> by (simp add: nearestDouble_def m u)
    also have "\<dots> = ?x" unfolding r by simp
    finally show ?thesis .
  next
    case False
    with e53 have e: "?e = 53" by simp
    with b(1) le have "\<bar>?x\<bar> = 2 ^ 53" by simp
    then have "\<bar>n\<bar> = 2 ^ 53" by (metis of_int_abs of_int_eq_iff of_int_numeral of_int_power)
    then have n: "n = 2 ^ 53 \<or> n = - (2 ^ 53)" by linarith
    have u: "(2::rat) powi (?e - 52) = 2" by (simp add: e)
    have "\<exists>m. ?x / 2 = of_int m"
    proof -
      from n have "?x / 2 = of_int (2 ^ 52) \<or> ?x / 2 = of_int (- (2 ^ 52))" by auto
      then show ?thesis by blast
    qed
    then obtain m where h: "?x / 2 = of_int m" by blast
    have "nearestDouble ?x = 2 * of_int (roundHalfEven (?x / 2))"
      using \<open>n \<noteq> 0\<close> by (simp add: nearestDouble_def m u)
    also have "\<dots> = 2 * (?x / 2)" by (simp only: h roundHalfEven_of_int)
    also have "\<dots> = ?x" by simp
    finally show ?thesis .
  qed
qed

lemma nearestDouble_whole:
  "x \<in> \<int> \<Longrightarrow> \<bar>x\<bar> \<le> 9007199254740992 \<Longrightarrow> nearestDouble x = x"
proof -
  assume "x \<in> \<int>" and b: "\<bar>x\<bar> \<le> 9007199254740992"
  then obtain n where n: "x = of_int n" by (auto elim: Ints_cases)
  with b have "rat_of_int \<bar>n\<bar> \<le> rat_of_int 9007199254740992" by simp
  then have "\<bar>n\<bar> \<le> 2 ^ 53" by (simp only: of_int_le_iff) simp
  then show ?thesis unfolding n by (rule nearestDouble_of_int)
qed

text \<open>Whole numbers add without rounding while the sum stays within \<open>2^53\<close>.\<close>

lemma js_add_whole:
  "x \<in> \<int> \<Longrightarrow> y \<in> \<int> \<Longrightarrow> \<bar>x + y\<bar> \<le> 9007199254740992 \<Longrightarrow> js_add x y = x + y"
  by (simp add: js_add_def nearestDouble_whole)

section \<open>The balance table\<close>

lemma updateBalance_fields [simp]:
  "chain (updateBalance a x s) = chain s"
  "mempool (updateBalance a x s) = mempool s"
  "difficulty (updateBalance a x s) = difficulty s"
  by (simp_all add: updateBalance_def)

lemma getBalance_updateBalance:
  "getBalance (updateBalance a x s) b =
     (if b = a then js_add (getBalance s a) x else getBalance s b)"
  by (simp add: updateBalance_def getBalance_def update_conv')

lemma processTransaction_fields [simp]:
  "chain (processTransaction tx s) = chain s"
  "mempool (processTransaction tx s) = mempool s"
  "difficulty (processTransaction tx s) = difficulty s"
  by (simp_all add: processTransaction_def)

lemma foldl_processTransaction_fields [simp]:
  "chain (foldl (\<lambda>st tx. processTransaction tx st) s txs) = chain s"
  "mempool (foldl (\<lambda>st tx. processTransaction tx st) s txs) = mempool s"
  "difficulty (foldl (\<lambda>st tx. processTransaction tx st) s txs) = difficulty s"
  by (induction txs arbitrary: s) simp_all

lemma processBlockTransactions_fields [simp]:
  "chain (processBlockTransactions b s) = chain s"
  "mempool (processBlockTransactions b s) = mempool s"
  "difficulty (processBlockTransactions b s) = difficulty s"
  by (simp_all add: processBlockTransactions_def)

section \<open>The mempool\<close>

lemma slice_prefix: "0 \<le> n \<Longrightarrow> slice xs 0 n = take (nat n) xs"
  by (cases "nat n \<le> length xs") (simp_all add: slice_def relativeIndex_def min_def)

lemma sliceFrom_suffix: "0 \<le> n \<Longrightarrow> sliceFrom xs n = drop (nat n) xs"
  by (cases "nat n \<le> length xs") (simp_all add: sliceFrom_def relativeIndex_def min_def)

text \<open>
  What a full pool does with a newcomer: the newcomer's fee is compared with the
  priority of the last resident.
\<close>

lemma addTransaction_at_capacity:
  assumes "maxPoolSize m \<le> length (pendingTransactions m)" and "pendingTransactions m \<noteq> []"
  shows "addTransaction now tx m =
           (if fee tx \<le> priority (last (pendingTransactions m)) then Inr (False, m)
            else Inr (True, push_sorted now tx (removeLowestPriority m)))"
  using assms by (simp add: addTransaction_def getLowestPriority_def)

lemma addTransaction_pending:
  assumes "addTransaction now tx m = Inr (ok, m')"
  shows "transaction ` set (pendingTransactions m') \<subseteq>
           insert tx (transaction ` set (pendingTransactions m))"
  using assms
  by (auto simp: addTransaction_def push_sorted_def sortByPriority_def removeLowestPriority_def
      split: if_splits sum.splits dest!: in_set_butlastD)

lemma drained_pending:
  assumes "(txs, m') = (if getPendingCount m > 0
            then getTransactionsForBlock n m else ([], m))"
  shows "set txs \<subseteq> transaction ` set (pendingTransactions m)"
    and "set (pendingTransactions m') \<subseteq> set (pendingTransactions m)"
  using assms
  by (auto simp: getTransactionsForBlock_def slice_def sliceFrom_def split: if_splits
      dest: in_set_takeD in_set_dropD)

text \<open>The priority of a transaction submitted at the instant it was made.\<close>

lemma calculatePriority_age_zero:
  "calculatePriority (timestamp tx) tx = nearestDouble (nearestDouble (fee tx * 1000))"
  by (simp add: calculatePriority_def js_div_def js_mul_def js_add_def js_sub_def
      nearestDouble_whole)

section \<open>Proof of work\<close>

lemma calculateHash_setHash: "calculateHash D (setHash h b) = calculateHash D b"
  by (simp add: calculateHash_def setHash_def)

text \<open>
  A search that returns hands back the block it was given, with another nonce and with
  the hash it found recorded; that hash meets the target.
\<close>

lemma mine_loop_result:
  assumes "mine_loop D d b sol att = Some y"
  shows "prevHash (fst y) = prevHash b \<and> transactions (fst y) = transactions b \<and>
     minerAddress (fst y) = minerAddress b \<and> ts (fst y) = ts b \<and>
     hash_cache (fst y) = Some (calculateHash D (fst y)) \<and>
     meetsTarget d (calculateHash D (fst y))"
proof (rule mine_loop.raw_induct[where P = "\<lambda>D d b sol att y.
     prevHash (fst y) = prevHash b \<and> transactions (fst y) = transactions b \<and>
     minerAddress (fst y) = minerAddress b \<and> ts (fst y) = ts b \<and>
     hash_cache (fst y) = Some (calculateHash D (fst y)) \<and>
     meetsTarget d (calculateHash D (fst y))", OF _ assms], goal_cases)
  case (1 loop D d block sol att y)
  show ?case
  proof (cases "meetsTarget d (calculateHash D (block\<lparr>nonce := js_add (nonce block) sol\<rparr>))")
    case True
    with 1(2) have "y = (setHash (calculateHash D (block\<lparr>nonce := js_add (nonce block) sol\<rparr>))
              (block\<lparr>nonce := js_add (nonce block) sol\<rparr>),
             \<lparr>solution = sol, attempts = js_add att 1,
                found_hash = calculateHash D (block\<lparr>nonce := js_add (nonce block) sol\<rparr>)\<rparr>)"
      by simp
    with True show ?thesis
      by (simp add: calculateHash_setHash) (simp add: setHash_def)
  next
    case False
    with 1(2)
    have "loop D d (block\<lparr>nonce := js_add (nonce block) sol\<rparr>) (js_add sol 1) (js_add att 1)
            = Some y"
      by simp
    from 1(1)[OF this] show ?thesis by simp
  qed
qed

text \<open>A search that meets the target within some number of attempts returns.\<close>

lemma mine_loop_found:
  "foundWithin D d b sol k \<Longrightarrow> \<exists>y. mine_loop D d b sol att = Some y"
proof (induction k arbitrary: b sol att)
  case 0
  then show ?case by simp
next
  case (Suc k)
  show ?case
  proof (cases "meetsTarget d (calculateHash D (b\<lparr>nonce := js_add (nonce b) sol\<rparr>))")
    case True
    then show ?thesis by (subst mine_loop.simps) simp
  next
    case False
    with Suc.prems
    have "foundWithin D d (b\<lparr>nonce := js_add (nonce b) sol\<rparr>) (js_add sol 1) k" by simp
    from Suc.IH[OF this, of "js_add att 1"] False show ?thesis
      by (subst mine_loop.simps) simp
  qed
qed

lemma mine_zero:
  "d \<le> 64 \<Longrightarrow> mine_loop zeroDigest d b sol att =
     Some (setHash (replicate 64 CHR ''0'') (b\<lparr>nonce := js_add (nonce b) sol\<rparr>),
           \<lparr>solution = sol, attempts = js_add att 1, found_hash = replicate 64 CHR ''0''\<rparr>)"
  by (subst mine_loop.simps)
     (simp add: meetsTarget_def calculateHash_def zeroDigest_def substring0_def repeat_def min_def)

section \<open>Steps of the engine\<close>

lemma addTransactionToMempool_fields:
  assumes "addTransactionToMempool now tx s = Inr (ok, s')"
  shows "chain s' = chain s" "balances s' = balances s" "difficulty s' = difficulty s"
  using assms
  by (auto simp: addTransactionToMempool_def split: if_splits sum.splits prod.splits)

text \<open>What a returned \<^verbatim>\<open>mineBlock\<close> has done.\<close>

lemma mineBlock_result:
  assumes "mineBlock D txNow blockNow seed minerAddr s = Some (Inr (newBlock, s'))"
  shows "\<exists>txs m. (txs, m) = (if getPendingCount (mempool s) > 0
            then getTransactionsForBlock maxTransactionsPerBlock (mempool s)
            else ([], mempool s)) \<and>
          chain s \<noteq> [] \<and>
          prevHash newBlock = hash D (last (chain s)) \<and>
          transactions newBlock =
            txs @ [createReward txNow minerAddr (js_add miningReward (totalFeesOf txs))] \<and>
          hash_cache newBlock = Some (calculateHash D newBlock) \<and>
          meetsTarget (difficulty s) (calculateHash D newBlock) \<and>
          s' = processBlockTransactions newBlock
                 (s\<lparr>chain := chain s @ [newBlock], mempool := m\<rparr>)"
proof -
  obtain txs m where tm: "(if getPendingCount (mempool s) > 0
            then getTransactionsForBlock maxTransactionsPerBlock (mempool s)
            else ([], mempool s)) = (txs, m)"
    by (cases "(if getPendingCount (mempool s) > 0
            then getTransactionsForBlock maxTransactionsPerBlock (mempool s)
            else ([], mempool s))")
  from assms tm have ne: "chain s \<noteq> []"
    by (auto simp: mineBlock_def getLastBlock_def split: if_splits)
  with assms tm obtain res where
    m: "mine D s (candidateBlock D txNow blockNow seed minerAddr (last (chain s)) txs)
          = Some (newBlock, res)"
    and s': "s' = processBlockTransactions newBlock
                    (s\<lparr>chain := chain s @ [newBlock], mempool := m\<rparr>)"
    by (auto simp: mineBlock_def getLastBlock_def split: if_splits option.splits prod.splits)
  from mine_loop_result[OF m[unfolded mine_def]]
  have "prevHash newBlock = hash D (last (chain s))"
    "transactions newBlock =
       txs @ [createReward txNow minerAddr (js_add miningReward (totalFeesOf txs))]"
    "hash_cache newBlock = Some (calculateHash D newBlock)"
    "meetsTarget (difficulty s) (calculateHash D newBlock)"
    by (simp_all add: candidateBlock_def new_Block_def)
  with ne s' tm show ?thesis by (intro exI[of _ txs] exI[of _ m]) simp
qed

lemma reachable_chain_nonempty: "reachable D P s \<Longrightarrow> chain s \<noteq> []"
proof (induction rule: reachable.induct)
  case (fresh txNow blockNow seed)
  show ?case by (simp add: new_ChainController_def createGenesisBlock_def)
next
  case (submitted s tx now ok s')
  then show ?case by (simp add: addTransactionToMempool_fields)
next
  case (mined s txNow blockNow seed minerAddr newBlock s')
  from mineBlock_result[OF mined.hyps(2)] show ?case by auto
next
  case (retargeted s d)
  then show ?case by (simp add: setDifficulty_def)
qed

subsection \<open>A sample run: one transfer, one block\<close>

lemmas engine_defs =
  freshEngine_def new_ChainController_def createGenesisBlock_def updateBalance_def
  getBalance_def new_MempoolController_def new_Block_def createGenesis_def createReward_def
  new_Transaction_def

lemmas submit_defs =
  addTransactionToMempool_def validateTransaction_def getTotalCost_def addTransaction_def
  push_sorted_def sortByPriority_def calculatePriority_def js_add_def js_sub_def js_mul_def
  js_div_def

lemmas mine_steps =
  mineBlock_def getPendingCount_def getTransactionsForBlock_def maxTransactionsPerBlock_def
  slice_def sliceFrom_def relativeIndex_def getLastBlock_def mine_def mine_zero
  candidateBlock_def hash_def calculateHash_def setHash_def totalFeesOf_def miningReward_def
  processBlockTransactions_def processTransaction_def

lemma submit_sample:
  "addTransactionToMempool 0 unsignedTransfer freshEngine = Inr (True, pendingTransfer)"
  by (simp add: unsignedTransfer_def pendingTransfer_def engine_defs submit_defs
      nearestDouble_whole)

lemma mine_sample:
  "mineBlock zeroDigest 0 0 0 ''miner'' pendingTransfer = Some (Inr (transferBlock, afterTransfer))"
  by (simp add: pendingTransfer_def unsignedTransfer_def transferBlock_def afterTransfer_def
      engine_defs mine_steps js_add_def nearestDouble_whole)
     (simp add: zeroDigest_def)

lemma reachable_fresh: "reachable D P freshEngine"
  unfolding freshEngine_def by (rule reachable.fresh)

lemma reachable_sample: "P unsignedTransfer \<Longrightarrow> reachable zeroDigest P afterTransfer"
proof -
  assume "P unsignedTransfer"
  with reachable_fresh have "reachable zeroDigest P pendingTransfer"
    using submit_sample by (rule reachable.submitted)
  then show ?thesis using mine_sample by (rule reachable.mined)
qed

lemma isRegular_sample: "isRegular unsignedTransfer"
  by (simp add: isRegular_def unsignedTransfer_def new_Transaction_def)

lemma wholeRegular_sample: "wholeRegular unsignedTransfer"
  by (simp add: wholeRegular_def unsignedTransfer_def new_Transaction_def)

subsection \<open>Two runs in which a sum rounds\<close>

text \<open>
  In the first the genesis payee sends the miner 0.4 and the miner mines twice. In the
  second a transfer of 100 carries a fee of \<open>2^-60\<close>.
\<close>

lemma fraction_doubles:
  "js_add dbl_0_4 0 = dbl_0_4"
  "js_add 0 dbl_0_4 = dbl_0_4"
  "js_add 100 (- dbl_0_4) = dbl_99_6"
  "js_add dbl_0_4 50 = dbl_50_4"
  "js_add dbl_50_4 50 = dbl_100_4"
proof -
  show "js_add dbl_0_4 0 = dbl_0_4" "js_add 0 dbl_0_4 = dbl_0_4"
    unfolding js_add_def dbl_0_4_def
    by (subst nearestDouble_at[where e="-2"], simp_all add: roundHalfEven_def)+
  show "js_add 100 (- dbl_0_4) = dbl_99_6"
    unfolding js_add_def dbl_0_4_def dbl_99_6_def
    by (subst nearestDouble_at[where e=6]) (simp_all add: roundHalfEven_def)
  show "js_add dbl_0_4 50 = dbl_50_4"
    unfolding js_add_def dbl_0_4_def dbl_50_4_def
    by (subst nearestDouble_at[where e=5]) (simp_all add: roundHalfEven_def)
  show "js_add dbl_50_4 50 = dbl_100_4"
    unfolding js_add_def dbl_50_4_def dbl_100_4_def
    by (subst nearestDouble_at[where e=6]) (simp_all add: roundHalfEven_def)
qed

lemma dbl_0_4_order: "\<not> 100 < dbl_0_4" "\<not> dbl_0_4 \<le> 0"
  by (simp_all add: dbl_0_4_def)

lemma js_mul_zero: "js_mul 0 x = 0"
  by (simp add: js_mul_def nearestDouble_def)

lemma js_div_zero: "js_div 0 x = 0"
  by (simp add: js_div_def nearestDouble_def)

lemma submit_fraction:
  "addTransactionToMempool 0 fractionalTransfer freshEngine = Inr (True, pendingFraction)"
proof -
  have f: "type fractionalTransfer = REGULAR" "payer fractionalTransfer = ''satoshi''"
    "amount fractionalTransfer = dbl_0_4" "fee fractionalTransfer = 0"
    "timestamp fractionalTransfer = 0"
    by (simp_all add: fractionalTransfer_def new_Transaction_def)
  have b: "getBalance freshEngine ''satoshi'' = 100"
    by (simp add: engine_defs js_add_def nearestDouble_whole)
  have v: "validateTransaction freshEngine fractionalTransfer"
    by (simp add: validateTransaction_def getTotalCost_def f b fraction_doubles dbl_0_4_order)
  have p: "calculatePriority 0 fractionalTransfer = 0"
    by (simp add: calculatePriority_def f js_mul_zero js_div_zero)
  have m: "mempool freshEngine = new_MempoolController 100"
    by (simp add: engine_defs)
  show ?thesis
    by (simp add: addTransactionToMempool_def v m addTransaction_def new_MempoolController_def
        push_sorted_def sortByPriority_def p pendingFraction_def)
qed

lemma mine_fraction:
  "mineBlock zeroDigest 0 0 0 ''miner'' pendingFraction = Some (Inr (fractionBlock, afterFraction))"
  by (simp add: pendingFraction_def fractionalTransfer_def fractionBlock_def afterFraction_def
      engine_defs mine_steps js_add_whole fraction_doubles zeroDigest_def)

lemma mine_reward:
  "mineBlock zeroDigest 0 0 0 ''miner'' afterFraction = Some (Inr (rewardBlock, afterReward))"
  by (simp add: fractionBlock_def afterFraction_def rewardBlock_def afterReward_def
      engine_defs mine_steps js_add_whole fraction_doubles zeroDigest_def)

lemma js_sub_whole:
  "x \<in> \<int> \<Longrightarrow> y \<in> \<int> \<Longrightarrow> \<bar>x - y\<bar> \<le> 9007199254740992 \<Longrightarrow> js_sub x y = x - y"
  by (simp add: js_sub_def nearestDouble_whole)

lemma tiny_fee_doubles:
  "js_add 100 tinyFee = 100"
  "js_mul tinyFee 1000 = tinyPriority"
  "js_div tinyPriority 1 = tinyPriority"
  unfolding js_add_def js_mul_def js_div_def tinyFee_def tinyPriority_def
  by (subst nearestDouble_at[where e=6], simp_all add: roundHalfEven_def)
     (subst nearestDouble_at[where e="-51"], simp_all add: roundHalfEven_def)+

lemma tinyFee_is_double: "nearestDouble tinyFee = tinyFee"
  unfolding tinyFee_def
  by (subst nearestDouble_at[where e="-60"]) (simp_all add: roundHalfEven_def)

lemma tinyFee_pos: "0 < tinyFee" "\<not> tinyFee < 0"
  by (simp_all add: tinyFee_def)

section \<open>Conservation in whole units\<close>

lemma sum_update:
  fixes al :: "(string \<times> number) list"
  shows "sum_list (map snd (AList.update k v al)) =
     sum_list (map snd al) + v - (case map_of al k of Some w \<Rightarrow> w | None \<Rightarrow> 0)"
  by (induction al) auto

lemma volume_update:
  fixes al :: "(string \<times> number) list"
  shows "sum_list (map (\<lambda>e. \<bar>snd e\<bar>) (AList.update k v al)) =
     sum_list (map (\<lambda>e. \<bar>snd e\<bar>) al) + \<bar>v\<bar>
       - \<bar>case map_of al k of Some w \<Rightarrow> w | None \<Rightarrow> 0\<bar>"
  by (induction al) auto

lemma whole_update:
  fixes al :: "(string \<times> number) list"
  shows "list_all (\<lambda>e. snd e \<in> \<int>) al \<Longrightarrow> v \<in> \<int> \<Longrightarrow>
           list_all (\<lambda>e. snd e \<in> \<int>) (AList.update k v al)"
  by (induction al) auto

lemma getBalance_whole: "tableWhole s \<Longrightarrow> getBalance s a \<in> \<int>"
proof -
  assume w: "tableWhole s"
  show ?thesis
  proof (cases "map_of (balances s) a")
    case None
    then show ?thesis by (simp add: getBalance_def)
  next
    case (Some v)
    then have "(a, v) \<in> set (balances s)" by (rule map_of_SomeD)
    with w have "v \<in> \<int>" by (auto simp: tableWhole_def list_all_iff)
    with Some show ?thesis by (simp add: getBalance_def)
  qed
qed

lemma getBalance_le_volume: "\<bar>getBalance s a\<bar> \<le> tableVolume s"
proof -
  have nn: "0 \<le> sum_list (map (\<lambda>e. \<bar>snd e\<bar>) al)" for al :: "(string \<times> number) list"
    by (induction al) auto
  have "\<bar>case map_of al a of Some w \<Rightarrow> w | None \<Rightarrow> 0\<bar> \<le> sum_list (map (\<lambda>e. \<bar>snd e\<bar>) al)"
    for al :: "(string \<times> number) list"
  proof (induction al)
    case Nil
    show ?case by simp
  next
    case (Cons p al)
    then show ?case using nn[of al] by (cases p) auto
  qed
  then show ?thesis by (simp add: getBalance_def tableVolume_def)
qed

text \<open>An update in whole units, within the bound, is exact.\<close>

lemma updateBalance_exact:
  assumes w: "tableWhole s" and x: "x \<in> \<int>"
    and b: "tableVolume s + \<bar>x\<bar> \<le> 9007199254740992"
  shows "tableWhole (updateBalance a x s)"
    and "tableVolume (updateBalance a x s) \<le> tableVolume s + \<bar>x\<bar>"
    and "totalBalance (updateBalance a x s) = totalBalance s + x"
proof -
  have "\<bar>getBalance s a + x\<bar> \<le> \<bar>getBalance s a\<bar> + \<bar>x\<bar>" by (rule abs_triangle_ineq)
  also have "\<dots> \<le> tableVolume s + \<bar>x\<bar>" using getBalance_le_volume[of s a] by simp
  finally have le: "\<bar>getBalance s a + x\<bar> \<le> tableVolume s + \<bar>x\<bar>" .
  with b have "\<bar>getBalance s a + x\<bar> \<le> 9007199254740992" by simp
  with getBalance_whole[OF w] x have e: "js_add (getBalance s a) x = getBalance s a + x"
    by (simp add: js_add_whole)
  from w x getBalance_whole[OF w, of a] show "tableWhole (updateBalance a x s)"
    by (simp add: tableWhole_def updateBalance_def e whole_update)
  have "tableVolume (updateBalance a x s) =
          tableVolume s + \<bar>getBalance s a + x\<bar> - \<bar>getBalance s a\<bar>"
    by (simp add: tableVolume_def updateBalance_def e volume_update) (simp add: getBalance_def)
  also have "\<dots> \<le> tableVolume s + \<bar>x\<bar>"
    using abs_triangle_ineq[of "getBalance s a" x] by simp
  finally show "tableVolume (updateBalance a x s) \<le> tableVolume s + \<bar>x\<bar>" .
  show "totalBalance (updateBalance a x s) = totalBalance s + x"
    by (simp add: totalBalance_def updateBalance_def e sum_update) (simp add: getBalance_def)
qed

text \<open>
  So is the replay of a transaction: a REGULAR one takes its fee out of the table, any
  other adds its amount.
\<close>

lemma processTransaction_exact_conj:
  assumes w: "tableWhole s" and a: "amount tx \<in> \<int>" and f: "fee tx \<in> \<int>"
    and b: "tableVolume s + weight tx \<le> 9007199254740992"
  shows "tableWhole (processTransaction tx s) \<and>
         tableVolume (processTransaction tx s) \<le> tableVolume s + weight tx \<and>
         totalBalance (processTransaction tx s) =
           totalBalance s + (if type tx = REGULAR then - fee tx else amount tx)"
proof (cases "type tx = REGULAR")
  case True
  have v0: "0 \<le> tableVolume s" using getBalance_le_volume[of s "[]"] by simp
  have tri: "\<bar>amount tx + fee tx\<bar> \<le> \<bar>amount tx\<bar> + \<bar>fee tx\<bar>" by (rule abs_triangle_ineq)
  with b v0 have "\<bar>amount tx + fee tx\<bar> \<le> 9007199254740992" by (simp add: weight_def)
  with a f have c: "js_add (amount tx) (fee tx) = amount tx + fee tx"
    by (simp add: js_add_whole)
  let ?c = "- (amount tx + fee tx)"
  let ?s1 = "updateBalance (payer tx) ?c s"
  from a f have cw: "?c \<in> \<int>" by simp
  from b tri have b1: "tableVolume s + \<bar>?c\<bar> \<le> 9007199254740992" by (simp add: weight_def)
  note u1 = updateBalance_exact[OF w cw b1, of "payer tx"]
  from u1(2) tri b have b2: "tableVolume ?s1 + \<bar>amount tx\<bar> \<le> 9007199254740992"
    by (simp add: weight_def)
  note u2 = updateBalance_exact[OF u1(1) a b2, of "payee tx"]
  have p: "processTransaction tx s = updateBalance (payee tx) (amount tx) ?s1"
    using True by (simp add: processTransaction_def c)
  from u2(2) u1(2) tri
  have "tableVolume (processTransaction tx s) \<le> tableVolume s + weight tx"
    by (simp add: p weight_def)
  moreover from u2(3) u1(3) True
  have "totalBalance (processTransaction tx s) =
         totalBalance s + (if type tx = REGULAR then - fee tx else amount tx)"
    by (simp add: p)
  ultimately show ?thesis using u2(1) by (simp add: p)
next
  case False
  from b have b1: "tableVolume s + \<bar>amount tx\<bar> \<le> 9007199254740992" by (simp add: weight_def)
  note u = updateBalance_exact[OF w a b1, of "payee tx"]
  have p: "processTransaction tx s = updateBalance (payee tx) (amount tx) s"
    using False by (cases "type tx") (simp_all add: processTransaction_def)
  from u(2) have "tableVolume (processTransaction tx s) \<le> tableVolume s + weight tx"
    by (simp add: p weight_def)
  with u(1,3) False show ?thesis by (simp add: p)
qed

lemma processTransaction_exact:
  assumes "tableWhole s" and "amount tx \<in> \<int>" and "fee tx \<in> \<int>"
    and "tableVolume s + weight tx \<le> 9007199254740992"
  shows "tableWhole (processTransaction tx s)"
    and "tableVolume (processTransaction tx s) \<le> tableVolume s + weight tx"
    and "totalBalance (processTransaction tx s) =
           totalBalance s + (if type tx = REGULAR then - fee tx else amount tx)"
  using processTransaction_exact_conj[OF assms] by simp_all

lemma weight_nonneg: "0 \<le> weight tx"
  by (simp add: weight_def)

lemma sum_weight_nonneg: "0 \<le> sum_list (map weight txs)"
  by (induction txs) (simp_all add: weight_nonneg)

lemma replay_exact:
  assumes "tableWhole s" and "\<forall>tx \<in> set txs. amount tx \<in> \<int> \<and> fee tx \<in> \<int>"
    and "tableVolume s + sum_list (map weight txs) \<le> 9007199254740992"
  shows "tableWhole (foldl (\<lambda>st tx. processTransaction tx st) s txs) \<and>
         tableVolume (foldl (\<lambda>st tx. processTransaction tx st) s txs)
           \<le> tableVolume s + sum_list (map weight txs) \<and>
         totalBalance (foldl (\<lambda>st tx. processTransaction tx st) s txs) =
           totalBalance s
             + sum_list (map (\<lambda>tx. if type tx = REGULAR then - fee tx else amount tx) txs)"
  using assms
proof (induction txs arbitrary: s)
  case Nil
  then show ?case by simp
next
  case (Cons tx txs)
  from Cons.prems(2) have i: "amount tx \<in> \<int>" "fee tx \<in> \<int>" by simp_all
  from Cons.prems(3) sum_weight_nonneg[of txs]
  have b: "tableVolume s + weight tx \<le> 9007199254740992" by simp
  note p = processTransaction_exact[OF Cons.prems(1) i b]
  from p(2) Cons.prems(3)
  have b': "tableVolume (processTransaction tx s) + sum_list (map weight txs)
              \<le> 9007199254740992" by simp
  from Cons.prems(2) have r: "\<forall>tx \<in> set txs. amount tx \<in> \<int> \<and> fee tx \<in> \<int>" by simp
  from Cons.IH[OF p(1) r b'] p(2,3) show ?case by simp
qed

lemma totalFeesOf_exact:
  assumes "\<forall>tx \<in> set txs. fee tx \<in> \<int>"
    and "sum_list (map (\<lambda>tx. \<bar>fee tx\<bar>) txs) \<le> 9007199254740992"
  shows "totalFeesOf txs = sum_list (map fee txs)"
proof -
  have "a \<in> \<int> \<Longrightarrow> \<forall>tx \<in> set txs. fee tx \<in> \<int> \<Longrightarrow>
        \<bar>a\<bar> + sum_list (map (\<lambda>tx. \<bar>fee tx\<bar>) txs) \<le> 9007199254740992 \<Longrightarrow>
        foldl (\<lambda>sum tx. js_add sum (fee tx)) a txs = a + sum_list (map fee txs)" for a
  proof (induction txs arbitrary: a)
    case Nil
    then show ?case by simp
  next
    case (Cons tx txs)
    have nn: "0 \<le> sum_list (map (\<lambda>tx. \<bar>fee tx\<bar>) txs)" by (induction txs) auto
    have tri: "\<bar>a + fee tx\<bar> \<le> \<bar>a\<bar> + \<bar>fee tx\<bar>" by (rule abs_triangle_ineq)
    with Cons.prems(3) nn have "\<bar>a + fee tx\<bar> \<le> 9007199254740992" by simp
    with Cons.prems(1,2) have e: "js_add a (fee tx) = a + fee tx" by (simp add: js_add_whole)
    from Cons.prems(1,2) have w: "a + fee tx \<in> \<int>" by simp
    from tri Cons.prems(3)
    have b: "\<bar>a + fee tx\<bar> + sum_list (map (\<lambda>tx. \<bar>fee tx\<bar>) txs) \<le> 9007199254740992" by simp
    from Cons.prems(2) have r: "\<forall>tx \<in> set txs. fee tx \<in> \<int>" by simp
    from Cons.IH[OF w r b] show ?case by (simp add: e)
  qed
  from this[of 0] assms show ?thesis by (simp add: totalFeesOf_def)
qed

lemma whole_run_invariant:
  "reachable D wholeRegular s \<Longrightarrow>
     (\<forall>p \<in> set (pendingTransactions (mempool s)). wholeRegular (transaction p)) \<and>
     200 \<le> traffic s \<and>
     (traffic s \<le> 9007199254740992 \<longrightarrow>
        tableWhole s \<and> tableVolume s \<le> traffic s \<and>
        totalBalance s = 100 + rewardsCredited s - feesPaid s \<and>
        rewardsCredited s = 50 * (of_nat (length (chain s)) - 1) + feesPaid s)"
proof (induction rule: reachable.induct)
  case (fresh txNow blockNow seed)
  show ?case
    by (simp add: new_ChainController_def createGenesisBlock_def new_MempoolController_def
        totalBalance_def updateBalance_def getBalance_def rewardsCredited_def feesPaid_def
        confirmed_def new_Block_def createGenesis_def new_Transaction_def traffic_def
        weight_def tableWhole_def tableVolume_def js_add_def nearestDouble_whole)
next
  case (submitted s tx now ok s')
  from submitted.hyps(3) have f: "chain s' = chain s" "balances s' = balances s"
    by (simp_all add: addTransactionToMempool_fields)
  have "\<forall>p \<in> set (pendingTransactions (mempool s')). wholeRegular (transaction p)"
  proof (cases "validateTransaction s tx")
    case False
    with submitted.hyps(3) have "s' = s" by (simp add: addTransactionToMempool_def)
    with submitted.IH show ?thesis by simp
  next
    case True
    with submitted.hyps(3) obtain m where m: "addTransaction now tx (mempool s) = Inr (ok, m)"
      and "s' = s\<lparr>mempool := m\<rparr>"
      by (auto simp: addTransactionToMempool_def split: sum.splits)
    with addTransaction_pending[OF m] submitted.IH submitted.hyps(2) show ?thesis
      by auto
  qed
  with f submitted.IH show ?case
    by (simp add: totalBalance_def rewardsCredited_def feesPaid_def confirmed_def traffic_def
        tableWhole_def tableVolume_def)
next
  case (mined s txNow blockNow seed minerAddr newBlock s')
  from mineBlock_result[OF mined.hyps(2)] obtain txs m where
    tm: "(txs, m) = (if getPendingCount (mempool s) > 0
            then getTransactionsForBlock maxTransactionsPerBlock (mempool s)
            else ([], mempool s))"
    and tx: "transactions newBlock =
               txs @ [createReward txNow minerAddr (js_add miningReward (totalFeesOf txs))]"
    and s': "s' = processBlockTransactions newBlock
                    (s\<lparr>chain := chain s @ [newBlock], mempool := m\<rparr>)"
    by blast
  let ?rw = "createReward txNow minerAddr (js_add miningReward (totalFeesOf txs))"
  from mined.IH
  have pend: "\<forall>p \<in> set (pendingTransactions (mempool s)). wholeRegular (transaction p)"
    and t200: "200 \<le> traffic s"
    by simp_all
  from drained_pending[OF tm] pend have reg: "\<forall>tx \<in> set txs. wholeRegular tx"
    and pend': "\<forall>p \<in> set (pendingTransactions m). wholeRegular (transaction p)"
    by auto
  have conf: "confirmed s' = confirmed s @ txs @ [?rw]"
    by (simp add: s' confirmed_def tx)
  have tr: "traffic s' = traffic s + sum_list (map weight txs) + weight ?rw"
    by (simp add: traffic_def conf)
  have p1: "\<forall>p \<in> set (pendingTransactions (mempool s')). wholeRegular (transaction p)"
    using pend' by (simp add: s')
  have p2: "200 \<le> traffic s'"
    using t200 sum_weight_nonneg[of txs] weight_nonneg[of ?rw] by (simp add: tr)
  have p3: "tableWhole s' \<and> tableVolume s' \<le> traffic s' \<and>
        totalBalance s' = 100 + rewardsCredited s' - feesPaid s' \<and>
        rewardsCredited s' = 50 * (of_nat (length (chain s')) - 1) + feesPaid s'"
    if bound: "traffic s' \<le> 9007199254740992"
  proof -
    from bound tr sum_weight_nonneg[of txs] weight_nonneg[of ?rw]
    have bs: "traffic s \<le> 9007199254740992" by simp
    with mined.IH have ih: "tableWhole s" "tableVolume s \<le> traffic s"
      "totalBalance s = 100 + rewardsCredited s - feesPaid s"
      "rewardsCredited s = 50 * (of_nat (length (chain s)) - 1) + feesPaid s"
      by simp_all
    from reg have fw: "\<forall>tx \<in> set txs. fee tx \<in> \<int>" by (simp add: wholeRegular_def)
    have fle: "sum_list (map (\<lambda>tx. \<bar>fee tx\<bar>) txs) \<le> sum_list (map weight txs)"
      by (rule sum_list_mono) (simp add: weight_def)
    from bound tr t200 weight_nonneg[of ?rw] fle
    have fb: "sum_list (map (\<lambda>tx. \<bar>fee tx\<bar>) txs) + 200 \<le> 9007199254740992" by simp
    then have F: "totalFeesOf txs = sum_list (map fee txs)"
      using fw by (intro totalFeesOf_exact) simp_all
    have Fw: "sum_list (map fee txs) \<in> \<int>" using fw by (induction txs) auto
    have "\<bar>sum_list (map fee txs)\<bar> \<le> sum_list (map (\<lambda>tx. \<bar>fee tx\<bar>) txs)"
      by (induction txs) auto
    with fb have "\<bar>50 + sum_list (map fee txs)\<bar> \<le> 9007199254740992" by simp
    with Fw have R: "js_add miningReward (totalFeesOf txs) = 50 + sum_list (map fee txs)"
      by (simp add: F miningReward_def js_add_whole)
    have rwf: "amount ?rw = 50 + sum_list (map fee txs)" "fee ?rw = 0" "type ?rw = REWARD"
      by (simp_all add: createReward_def new_Transaction_def R)
    let ?s0 = "s\<lparr>chain := chain s @ [newBlock], mempool := m\<rparr>"
    have w0: "tableWhole ?s0" using ih(1) by (simp add: tableWhole_def)
    have all: "\<forall>tx \<in> set (txs @ [?rw]). amount tx \<in> \<int> \<and> fee tx \<in> \<int>"
      using reg Fw by (auto simp: wholeRegular_def rwf)
    have v0: "tableVolume ?s0 + sum_list (map weight (txs @ [?rw])) \<le> 9007199254740992"
      using ih(2) bound tr by (simp add: tableVolume_def)
    from replay_exact[OF w0 all v0]
    have r: "tableWhole s'" "tableVolume s' \<le> tableVolume ?s0 + sum_list (map weight (txs @ [?rw]))"
      "totalBalance s' = totalBalance ?s0
         + sum_list (map (\<lambda>tx. if type tx = REGULAR then - fee tx else amount tx) (txs @ [?rw]))"
      by (simp_all add: s' processBlockTransactions_def tx)
    from reg have fR: "filter (\<lambda>tx. type tx = REWARD) txs = []"
      "filter (\<lambda>tx. type tx = REGULAR) txs = txs"
      by (auto simp: filter_empty_conv wholeRegular_def)
    from reg have d: "sum_list (map (\<lambda>tx. if type tx = REGULAR then - fee tx else amount tx) txs)
                        = - sum_list (map fee txs)"
      by (induction txs) (simp_all add: wholeRegular_def)
    have rw: "rewardsCredited s' = rewardsCredited s + (50 + sum_list (map fee txs))"
      by (simp add: rewardsCredited_def conf fR rwf)
    have fp: "feesPaid s' = feesPaid s + sum_list (map fee txs)"
      by (simp add: feesPaid_def conf fR rwf)
    have tb: "totalBalance s' = totalBalance s - sum_list (map fee txs)
                + (50 + sum_list (map fee txs))"
      using r(3) by (simp add: d rwf) (simp add: totalBalance_def)
    have len: "length (chain s') = length (chain s) + 1" by (simp add: s')
    from rw fp tb len ih(3,4)
    have "totalBalance s' = 100 + rewardsCredited s' - feesPaid s'"
      "rewardsCredited s' = 50 * (of_nat (length (chain s')) - 1) + feesPaid s'"
      by (simp_all add: algebra_simps)
    moreover from r(2) ih(2) have "tableVolume s' \<le> traffic s'"
      by (simp add: tr) (simp add: tableVolume_def)
    ultimately show ?thesis using r(1) by simp
  qed
  from p1 p2 p3 show ?case by blast
next
  case (retargeted s d)
  then show ?case
    by (simp add: setDifficulty_def totalBalance_def rewardsCredited_def feesPaid_def
        confirmed_def traffic_def tableWhole_def tableVolume_def)
qed

text \<open>
  C1, as the code has it: along every run in which only REGULAR transactions in whole
  units are submitted, and while the confirmed traffic (twice the amounts plus the fees)
  stays within \<open>2^53\<close>, the sum of all balances is 100 plus the REWARD amounts credited
  minus the fees of the confirmed REGULAR transactions. A transfer is not
  balance-neutral: it takes its fee out of the table, and the block's REWARD, which is
  50 plus the fees of the block, puts it back; so the rewards are 50 for each mined block
  plus the fees paid. The restriction to whole units is what makes the double additions
  of the replay exact.
\<close>

theorem conservation_with_fees:
  "reachable D wholeRegular s \<Longrightarrow> traffic s \<le> 2 ^ 53 \<Longrightarrow>
     totalBalance s = 100 + rewardsCredited s - feesPaid s \<and>
     rewardsCredited s = 50 * (of_nat (length (chain s)) - 1) + feesPaid s"
  using whole_run_invariant[of D s] by simp

lemma traffic_sample: "traffic afterTransfer = 323"
  by (simp add: traffic_def confirmed_def weight_def afterTransfer_def transferBlock_def
      unsignedTransfer_def engine_defs)

theorem conservation_with_fees_witness:
  "reachable zeroDigest wholeRegular afterTransfer \<and> traffic afterTransfer \<le> 2 ^ 53 \<and>
   totalBalance afterTransfer = 100 + rewardsCredited afterTransfer - feesPaid afterTransfer \<and>
   rewardsCredited afterTransfer = 50 * (of_nat (length (chain afterTransfer)) - 1)
     + feesPaid afterTransfer"
proof -
  have r: "reachable zeroDigest wholeRegular afterTransfer"
    using wholeRegular_sample by (rule reachable_sample)
  have t: "traffic afterTransfer \<le> 2 ^ 53" by (simp add: traffic_sample)
  from conservation_with_fees[OF r t] r t show ?thesis by simp
qed

text \<open>
  C1 as the claim words it fails as soon as a fee is paid. The genesis payee sends bob 10
  units with fee 1 and a miner mines the block: the balances are 89, 10 and 51, in sum
  150, while 100 plus the one REWARD amount is 151.
\<close>

theorem conservation_counterexample:
  "addTransactionToMempool 0 unsignedTransfer freshEngine = Inr (True, pendingTransfer) \<and>
   mineBlock zeroDigest 0 0 0 ''miner'' pendingTransfer = Some (Inr (transferBlock, afterTransfer)) \<and>
   totalBalance afterTransfer = 150 \<and>
   100 + rewardsCredited afterTransfer = 151 \<and>
   totalBalance afterTransfer \<noteq> 100 + rewardsCredited afterTransfer"
  by (simp add: submit_sample mine_sample)
     (simp add: totalBalance_def rewardsCredited_def confirmed_def afterTransfer_def
       transferBlock_def unsignedTransfer_def engine_defs)

text \<open>
  With a fractional amount the equation is off by a rounding error: after the first
  block of the run with 0.4 the balances are the doubles 99.6 and 50.4.
\<close>

lemma fractional_run_not_conserved:
  "reachable zeroDigest isRegular afterFraction \<and>
   totalBalance afterFraction = 150 - 1 / 2 ^ 47 \<and>
   100 + rewardsCredited afterFraction - feesPaid afterFraction = 150"
proof -
  have "isRegular fractionalTransfer"
    by (simp add: isRegular_def fractionalTransfer_def new_Transaction_def)
  with reachable_fresh have "reachable zeroDigest isRegular pendingFraction"
    using submit_fraction by (rule reachable.submitted)
  then have "reachable zeroDigest isRegular afterFraction"
    using mine_fraction by (rule reachable.mined)
  then show ?thesis
    by (simp add: totalBalance_def rewardsCredited_def feesPaid_def confirmed_def
        afterFraction_def fractionBlock_def fractionalTransfer_def engine_defs dbl_99_6_def
        dbl_50_4_def)
qed

section \<open>Admission to the mempool\<close>

text \<open>
  C2, evaluated at the claim's own example, on a pool of capacity two. Two fee-one
  transactions of age zero fill the pool, each with priority 1000. A transaction with fee
  two is then turned away and the pool stays as it was: a full pool compares the
  newcomer's fee with the last resident's priority, not with its fee, and 2 is not above
  1000.
\<close>

theorem fee_two_rejected_by_full_pool:
  "addTransaction 0 feeOne (new_MempoolController 2) =
     Inr (True, \<lparr>pendingTransactions = [\<lparr>transaction = feeOne, priority = 1000\<rparr>],
                maxPoolSize = 2\<rparr>) \<and>
   addTransaction 0 feeOne
     \<lparr>pendingTransactions = [\<lparr>transaction = feeOne, priority = 1000\<rparr>], maxPoolSize = 2\<rparr> =
     Inr (True, fullPool) \<and>
   fee feeOne = 1 \<and> fee feeTwo = 2 \<and>
   addTransaction 0 feeTwo fullPool = Inr (False, fullPool)"
  by (simp add: addTransaction_def new_MempoolController_def push_sorted_def sortByPriority_def
      calculatePriority_def js_add_def js_sub_def js_mul_def js_div_def nearestDouble_whole
      feeOne_def feeTwo_def new_Transaction_def fullPool_def getLowestPriority_def)

text \<open>The same at the capacity the engine uses.\<close>

lemma fee_two_rejected_at_default_capacity:
  "addTransaction now feeTwo fullDefaultPool = Inr (False, fullDefaultPool)"
proof -
  have "maxPoolSize fullDefaultPool \<le> length (pendingTransactions fullDefaultPool)"
    and "pendingTransactions fullDefaultPool \<noteq> []"
    and "priority (last (pendingTransactions fullDefaultPool)) = 1000"
    by (simp_all add: fullDefaultPool_def)
  then show ?thesis
    by (simp add: addTransaction_at_capacity feeTwo_def new_Transaction_def)
qed

section \<open>The genesis state\<close>

text \<open>
  C3, as the code has it: a freshly constructed engine has chain length 1, the balance
  of the identity \<^verbatim>\<open>satoshi\<close> is 100, the chain is valid and nothing is pending. This
  holds for every clock value and start nonce the constructor may read, and for every
  digest.
\<close>

theorem genesis_state:
  "getChainLength (new_ChainController txNow blockNow seed) = 1 \<and>
   getBalance (new_ChainController txNow blockNow seed) ''satoshi'' = 100 \<and>
   isChainValid D (new_ChainController txNow blockNow seed) \<and>
   getPendingTransactionCount (new_ChainController txNow blockNow seed) = 0"
  by (simp add: getChainLength_def new_ChainController_def createGenesisBlock_def
      updateBalance_def getBalance_def isChainValid_def isChainValidFrom.simps
      getPendingTransactionCount_def getPendingCount_def new_MempoolController_def
      js_add_def nearestDouble_whole)

text \<open>
  C3 as the claim words it fails: the identity \<^verbatim>\<open>root\<close> is unknown to a fresh engine,
  and its balance is the default 0.
\<close>

theorem genesis_root_balance_counterexample:
  "getBalance freshEngine ''root'' = 0 \<and> getBalance freshEngine ''root'' \<noteq> 100"
  by (simp add: freshEngine_def new_ChainController_def createGenesisBlock_def
      updateBalance_def getBalance_def)

section \<open>Validation of a submitted transaction\<close>

lemma validateTransaction_exempt:
  "type tx = REWARD \<or> type tx = GENESIS \<Longrightarrow> validateTransaction s tx"
  by (simp add: validateTransaction_def)

lemma validateTransaction_ignores_signature:
  "validateTransaction s (tx\<lparr>signature := sig\<rparr>) = validateTransaction s tx"
  by (simp add: validateTransaction_def getTotalCost_def)

text \<open>
  C4, evaluated: a REGULAR transaction that was never signed, from a payer who can afford
  it, is accepted by \<^verbatim>\<open>addTransactionToMempool\<close> on a fresh engine and becomes the one
  pending transaction. \<^verbatim>\<open>validateTransaction\<close> reads the type, the payer's balance, the
  amount and the fee; it never reads the signature.
\<close>

theorem unsigned_transfer_accepted:
  "type unsignedTransfer = REGULAR \<and> signature unsignedTransfer = None \<and>
   addTransactionToMempool 0 unsignedTransfer freshEngine = Inr (True, pendingTransfer) \<and>
   getPendingTransactionCount pendingTransfer = 1"
  by (simp add: submit_sample)
     (simp add: unsignedTransfer_def new_Transaction_def pendingTransfer_def
       getPendingTransactionCount_def getPendingCount_def)

text \<open>
  C5, as the code has it: a REGULAR transaction whose total cost, the double sum
  \<^verbatim>\<open>amount + fee\<close> that \<^verbatim>\<open>getTotalCost\<close> returns, exceeds the payer's balance is answered
  with false, and the engine it leaves behind is the engine it found: chain, mempool,
  balances and difficulty. For an amount and a fee in whole units whose sum is within
  \<open>2^53\<close> the total cost is the exact sum.
\<close>

theorem insufficient_balance_rejected:
  "(type tx = REGULAR \<longrightarrow> getBalance s (payer tx) < getTotalCost tx \<longrightarrow>
      addTransactionToMempool now tx s = Inr (False, s)) \<and>
   (type tx = REGULAR \<longrightarrow> amount tx \<in> \<int> \<longrightarrow> fee tx \<in> \<int> \<longrightarrow>
      \<bar>amount tx + fee tx\<bar> \<le> 2 ^ 53 \<longrightarrow> getBalance s (payer tx) < amount tx + fee tx \<longrightarrow>
      addTransactionToMempool now tx s = Inr (False, s))"
  by (simp add: addTransactionToMempool_def validateTransaction_def getTotalCost_def
      js_add_whole)

theorem insufficient_balance_rejected_witness:
  "type (new_Transaction 10 ''alice'' ''bob'' 1 REGULAR 0) = REGULAR \<and>
   getBalance freshEngine (payer (new_Transaction 10 ''alice'' ''bob'' 1 REGULAR 0))
     < getTotalCost (new_Transaction 10 ''alice'' ''bob'' 1 REGULAR 0) \<and>
   amount (new_Transaction 10 ''alice'' ''bob'' 1 REGULAR 0) \<in> \<int> \<and>
   fee (new_Transaction 10 ''alice'' ''bob'' 1 REGULAR 0) \<in> \<int> \<and>
   \<bar>amount (new_Transaction 10 ''alice'' ''bob'' 1 REGULAR 0)
     + fee (new_Transaction 10 ''alice'' ''bob'' 1 REGULAR 0)\<bar> \<le> 2 ^ 53 \<and>
   getBalance freshEngine (payer (new_Transaction 10 ''alice'' ''bob'' 1 REGULAR 0))
     < amount (new_Transaction 10 ''alice'' ''bob'' 1 REGULAR 0)
       + fee (new_Transaction 10 ''alice'' ''bob'' 1 REGULAR 0) \<and>
   addTransactionToMempool 0 (new_Transaction 10 ''alice'' ''bob'' 1 REGULAR 0) freshEngine
     = Inr (False, freshEngine)"
  using insufficient_balance_rejected
          [of "new_Transaction 10 ''alice'' ''bob'' 1 REGULAR 0" freshEngine 0]
  by (simp add: new_Transaction_def freshEngine_def new_ChainController_def
      createGenesisBlock_def updateBalance_def getBalance_def getTotalCost_def js_add_def
      nearestDouble_whole)

text \<open>
  C5 as the claim words it, with the sum taken exactly, fails where the sum rounds. On a
  fresh engine the genesis payee holds 100; a transfer of 100 with a fee of \<open>2^-60\<close>
  costs more than 100, but the double sum is 100, and the transaction is accepted.
\<close>

theorem rounded_cost_counterexample:
  "type tinyFeeTransfer = REGULAR \<and>
   getBalance freshEngine (payer tinyFeeTransfer) = 100 \<and>
   amount tinyFeeTransfer + fee tinyFeeTransfer = 100 + 1 / 2 ^ 60 \<and>
   getBalance freshEngine (payer tinyFeeTransfer)
     < amount tinyFeeTransfer + fee tinyFeeTransfer \<and>
   getTotalCost tinyFeeTransfer = 100 \<and>
   addTransactionToMempool 0 tinyFeeTransfer freshEngine = Inr (True, pendingTinyFee) \<and>
   getPendingTransactionCount pendingTinyFee = 1"
proof -
  have f: "type tinyFeeTransfer = REGULAR" "payer tinyFeeTransfer = ''satoshi''"
    "amount tinyFeeTransfer = 100" "fee tinyFeeTransfer = tinyFee"
    "timestamp tinyFeeTransfer = 0"
    by (simp_all add: tinyFeeTransfer_def new_Transaction_def)
  have c: "getTotalCost tinyFeeTransfer = 100"
    by (simp add: getTotalCost_def f tiny_fee_doubles)
  have "js_add (js_div (js_sub 0 0) 1000) 1 = 1"
    by (simp add: js_add_def js_sub_def js_div_def nearestDouble_whole)
  then have p: "calculatePriority 0 tinyFeeTransfer = tinyPriority"
    by (simp add: calculatePriority_def f tiny_fee_doubles)
  have b: "getBalance freshEngine ''satoshi'' = 100"
    by (simp add: engine_defs js_add_def nearestDouble_whole)
  have v: "validateTransaction freshEngine tinyFeeTransfer"
    by (simp add: validateTransaction_def f b c tinyFee_pos)
  have m: "mempool freshEngine = new_MempoolController 100"
    by (simp add: engine_defs)
  have a: "addTransactionToMempool 0 tinyFeeTransfer freshEngine = Inr (True, pendingTinyFee)"
    by (simp add: addTransactionToMempool_def v m addTransaction_def new_MempoolController_def
        push_sorted_def sortByPriority_def p pendingTinyFee_def)
  have n: "getPendingTransactionCount pendingTinyFee = 1"
    by (simp add: getPendingTransactionCount_def getPendingCount_def pendingTinyFee_def)
  from a n c show ?thesis by (simp add: f b) (simp add: tinyFee_def)
qed

section \<open>Mining with an empty mempool\<close>

text \<open>
  C6, as the code has it: on an engine with nothing pending, \<^verbatim>\<open>mineBlock(addr)\<close> returns
  a block whose only transaction is the REWARD of amount 50 paying \<open>addr\<close>, appends it
  to the chain and sets the balance of \<open>addr\<close> to the double sum of that balance and 50,
  which is exactly 50 more whenever the balance is in whole units and the sum is within
  \<open>2^53\<close>. The search is over the platform's digest, which the model takes as a parameter;
  that it ends is the premise that some attempt of the search meets the target.
\<close>

theorem coinbase_only_mining:
  assumes r: "reachable D P s"
    and e: "getPendingTransactionCount s = 0"
    and f: "foundWithin D (difficulty s)
              (candidateBlock D txNow blockNow seed addr (last (chain s)) []) 1 k"
  shows "\<exists>newBlock s'. mineBlock D txNow blockNow seed addr s = Some (Inr (newBlock, s')) \<and>
           chain s' = chain s @ [newBlock] \<and>
           transactions newBlock = [createReward txNow addr 50] \<and>
           type (createReward txNow addr 50) = REWARD \<and>
           amount (createReward txNow addr 50) = 50 \<and>
           payee (createReward txNow addr 50) = addr \<and>
           getBalance s' addr = js_add (getBalance s addr) 50 \<and>
           (getBalance s addr \<in> \<int> \<and> \<bar>getBalance s addr + 50\<bar> \<le> 2 ^ 53 \<longrightarrow>
              getBalance s' addr = getBalance s addr + 50)"
proof -
  let ?cand = "candidateBlock D txNow blockNow seed addr (last (chain s)) []"
  from mine_loop_found[OF f, of 0]
  obtain y where y: "mine_loop D (difficulty s) ?cand 1 0 = Some y" by blast
  obtain nb res where nr: "y = (nb, res)" by (cases y)
  have fifty: "js_add miningReward (totalFeesOf []) = 50"
    by (simp add: totalFeesOf_def miningReward_def js_add_def nearestDouble_whole)
  from mine_loop_result[OF y] nr have tx: "transactions nb = [createReward txNow addr 50]"
    by (simp add: candidateBlock_def new_Block_def fifty)
  let ?s' = "processBlockTransactions nb (s\<lparr>chain := chain s @ [nb]\<rparr>)"
  from reachable_chain_nonempty[OF r] e y nr
  have "mineBlock D txNow blockNow seed addr s = Some (Inr (nb, ?s'))"
    by (simp add: mineBlock_def getPendingTransactionCount_def getLastBlock_def mine_def)
  moreover have "chain ?s' = chain s @ [nb]" by simp
  moreover have b: "getBalance ?s' addr = js_add (getBalance s addr) 50"
    by (simp add: processBlockTransactions_def tx processTransaction_def createReward_def
        new_Transaction_def getBalance_updateBalance) (simp add: getBalance_def)
  moreover have "getBalance s addr \<in> \<int> \<and> \<bar>getBalance s addr + 50\<bar> \<le> 2 ^ 53 \<longrightarrow>
              getBalance ?s' addr = getBalance s addr + 50"
    by (simp add: b js_add_whole)
  ultimately show ?thesis using tx
    by (intro exI[of _ nb] exI[of _ ?s']) (simp add: createReward_def new_Transaction_def)
qed

theorem coinbase_only_mining_witness:
  "reachable zeroDigest isRegular freshEngine \<and>
   getPendingTransactionCount freshEngine = 0 \<and>
   foundWithin zeroDigest (difficulty freshEngine)
     (candidateBlock zeroDigest 0 0 0 ''miner'' (last (chain freshEngine)) []) 1 (Suc 0) \<and>
   (\<exists>newBlock s'.
      mineBlock zeroDigest 0 0 0 ''miner'' freshEngine = Some (Inr (newBlock, s')) \<and>
      chain s' = chain freshEngine @ [newBlock] \<and>
      transactions newBlock = [createReward 0 ''miner'' 50] \<and>
      type (createReward 0 ''miner'' 50) = REWARD \<and>
      amount (createReward 0 ''miner'' 50) = 50 \<and>
      payee (createReward 0 ''miner'' 50) = ''miner'' \<and>
      getBalance s' ''miner'' = js_add (getBalance freshEngine ''miner'') 50 \<and>
      getBalance s' ''miner'' = getBalance freshEngine ''miner'' + 50)"
proof -
  have e: "getPendingTransactionCount freshEngine = 0"
    by (simp add: getPendingTransactionCount_def getPendingCount_def freshEngine_def
        new_ChainController_def createGenesisBlock_def updateBalance_def new_MempoolController_def)
  have f: "foundWithin zeroDigest (difficulty freshEngine)
     (candidateBlock zeroDigest 0 0 0 ''miner'' (last (chain freshEngine)) []) 1 (Suc 0)"
    by (simp add: meetsTarget_def calculateHash_def zeroDigest_def substring0_def repeat_def
        freshEngine_def new_ChainController_def createGenesisBlock_def updateBalance_def)
  have b: "getBalance freshEngine ''miner'' = 0"
    by (simp add: engine_defs)
  from coinbase_only_mining[OF reachable_fresh e f] reachable_fresh e f
  show ?thesis by (simp add: b)
qed

text \<open>
  C6 as the claim words it fails where the sum rounds. The genesis payee sends the miner
  0.4 and the miner mines the block, which leaves it with 50.4; nothing is pending. The
  miner mines again: its balance becomes the double 100.4, which is not 50 more than the
  double 50.4.
\<close>

theorem rounded_reward_counterexample:
  "addTransactionToMempool 0 fractionalTransfer freshEngine = Inr (True, pendingFraction) \<and>
   mineBlock zeroDigest 0 0 0 ''miner'' pendingFraction = Some (Inr (fractionBlock, afterFraction)) \<and>
   getPendingTransactionCount afterFraction = 0 \<and>
   mineBlock zeroDigest 0 0 0 ''miner'' afterFraction = Some (Inr (rewardBlock, afterReward)) \<and>
   getBalance afterFraction ''miner'' = dbl_50_4 \<and>
   getBalance afterReward ''miner'' = dbl_100_4 \<and>
   dbl_100_4 - dbl_50_4 = 50 + 1 / 2 ^ 47 \<and>
   getBalance afterReward ''miner'' \<noteq> getBalance afterFraction ''miner'' + 50"
  by (simp add: submit_fraction mine_fraction mine_reward)
     (simp add: getPendingTransactionCount_def getPendingCount_def afterFraction_def
       afterReward_def getBalance_def new_MempoolController_def dbl_50_4_def dbl_100_4_def)

section \<open>Chain links and validity\<close>

lemma isChainValidFrom_iff:
  "isChainValidFrom D s i =
     (\<forall>j. i \<le> j \<and> j < length (chain s) \<longrightarrow>
        prevHash (chain s ! j) = hash D (chain s ! (j - 1)) \<and>
        startsWith (hash D (chain s ! j)) (repeat CHR ''0'' (difficulty s)))"
proof (induction D s i rule: isChainValidFrom.induct)
  case (1 D s i)
  let ?ok = "\<lambda>j. prevHash (chain s ! j) = hash D (chain s ! (j - 1)) \<and>
        startsWith (hash D (chain s ! j)) (repeat CHR ''0'' (difficulty s))"
  show ?case
  proof (cases "i < length (chain s)")
    case False
    then show ?thesis by (subst isChainValidFrom.simps) auto
  next
    case True
    show ?thesis
    proof (cases "?ok i")
      case False
      with True have "\<not> isChainValidFrom D s i"
        by (subst isChainValidFrom.simps) auto
      moreover from True False have "\<not> (\<forall>j. i \<le> j \<and> j < length (chain s) \<longrightarrow> ?ok j)"
        by blast
      ultimately show ?thesis by blast
    next
      case ok: True
      with True have "isChainValidFrom D s i = isChainValidFrom D s (i + 1)"
        by (subst isChainValidFrom.simps) simp
      also from 1 True ok have "\<dots> = (\<forall>j. i + 1 \<le> j \<and> j < length (chain s) \<longrightarrow> ?ok j)"
        by simp
      also from ok have "\<dots> = (\<forall>j. i \<le> j \<and> j < length (chain s) \<longrightarrow> ?ok j)"
      proof -
        have "\<And>j. i \<le> j \<Longrightarrow> j = i \<or> i + 1 \<le> j" by arith
        moreover have "\<And>j. i + 1 \<le> j \<Longrightarrow> i \<le> j" by arith
        ultimately show ?thesis using ok by blast
      qed
      finally show ?thesis .
    qed
  qed
qed

lemma linked_snoc:
  assumes "\<forall>i. 0 < i \<and> i < length bs \<longrightarrow> prevHash (bs ! i) = hash D (bs ! (i - 1))"
    and "bs \<noteq> []" and "prevHash b = hash D (last bs)"
  shows "\<forall>i. 0 < i \<and> i < length (bs @ [b]) \<longrightarrow>
           prevHash ((bs @ [b]) ! i) = hash D ((bs @ [b]) ! (i - 1))"
proof (intro allI impI)
  fix i assume i: "0 < i \<and> i < length (bs @ [b])"
  show "prevHash ((bs @ [b]) ! i) = hash D ((bs @ [b]) ! (i - 1))"
  proof (cases "i < length bs")
    case True
    with i have "i - 1 < length bs" by simp
    with True i assms(1) show ?thesis by (simp add: nth_append)
  next
    case False
    with i have "i = length bs" by simp
    with assms(2,3) show ?thesis by (simp add: nth_append last_conv_nth)
  qed
qed

lemma reachable_linked:
  "reachable D P s \<Longrightarrow>
     \<forall>i. 0 < i \<and> i < length (chain s) \<longrightarrow> prevHash (chain s ! i) = hash D (chain s ! (i - 1))"
proof (induction rule: reachable.induct)
  case (fresh txNow blockNow seed)
  show ?case by (simp add: new_ChainController_def createGenesisBlock_def)
next
  case (submitted s tx now ok s')
  then show ?case by (simp add: addTransactionToMempool_fields)
next
  case (mined s txNow blockNow seed minerAddr newBlock s')
  from mineBlock_result[OF mined.hyps(2)] obtain txs m where
    ne: "chain s \<noteq> []" and ph: "prevHash newBlock = hash D (last (chain s))"
    and s': "s' = processBlockTransactions newBlock
                    (s\<lparr>chain := chain s @ [newBlock], mempool := m\<rparr>)"
    by blast
  from s' have "chain s' = chain s @ [newBlock]" by simp
  with linked_snoc[OF mined.IH ne ph] show ?case by simp
next
  case (retargeted s d)
  then show ?case by (simp add: setDifficulty_def)
qed

text \<open>
  C7: in every state an engine can reach, each block after the first names the hash of
  its predecessor; and \<^verbatim>\<open>isChainValid\<close> is true exactly when, for every block after the
  first, that link holds and the block's hash starts with as many zeros as the current
  difficulty.
\<close>

theorem chain_links_and_validity:
  "(reachable D P s \<longrightarrow>
     (\<forall>i. 0 < i \<and> i < length (chain s) \<longrightarrow>
        prevHash (chain s ! i) = hash D (chain s ! (i - 1)))) \<and>
   (isChainValid D s' \<longleftrightarrow>
     (\<forall>i. 0 < i \<and> i < length (chain s') \<longrightarrow>
        prevHash (chain s' ! i) = hash D (chain s' ! (i - 1)) \<and>
        startsWith (hash D (chain s' ! i)) (repeat CHR ''0'' (difficulty s'))))"
proof -
  have "(\<forall>j. 1 \<le> j \<and> j < length (chain s') \<longrightarrow>
        prevHash (chain s' ! j) = hash D (chain s' ! (j - 1)) \<and>
        startsWith (hash D (chain s' ! j)) (repeat CHR ''0'' (difficulty s'))) =
     (\<forall>i. 0 < i \<and> i < length (chain s') \<longrightarrow>
        prevHash (chain s' ! i) = hash D (chain s' ! (i - 1)) \<and>
        startsWith (hash D (chain s' ! i)) (repeat CHR ''0'' (difficulty s')))"
    by (simp add: Suc_le_eq)
  then show ?thesis
    using reachable_linked[of D P s] by (simp add: isChainValid_def isChainValidFrom_iff)
qed

lemma sample_chain:
  "length (chain afterTransfer) = 2"
  "prevHash (chain afterTransfer ! Suc 0) = replicate 64 CHR ''0''"
  "hash zeroDigest (chain afterTransfer ! 0) = replicate 64 CHR ''0''"
  "hash zeroDigest (chain afterTransfer ! Suc 0) = replicate 64 CHR ''0''"
  "difficulty afterTransfer = 4"
  by (simp_all add: afterTransfer_def freshEngine_def new_ChainController_def createGenesisBlock_def
      updateBalance_def transferBlock_def hash_def calculateHash_def zeroDigest_def new_Block_def)

theorem chain_links_and_validity_witness:
  "reachable zeroDigest isRegular afterTransfer \<and>
   length (chain afterTransfer) = 2 \<and>
   prevHash (chain afterTransfer ! 1) = hash zeroDigest (chain afterTransfer ! 0) \<and>
   isChainValid zeroDigest afterTransfer"
proof -
  note t = chain_links_and_validity[of zeroDigest isRegular afterTransfer afterTransfer]
  note r = reachable_sample[where P = isRegular, OF isRegular_sample]
  from t r
  have link: "prevHash (chain afterTransfer ! 1) = hash zeroDigest (chain afterTransfer ! (1 - 1))"
    by (simp add: sample_chain(1))
  have "\<forall>i. 0 < i \<and> i < length (chain afterTransfer) \<longrightarrow>
        prevHash (chain afterTransfer ! i) = hash zeroDigest (chain afterTransfer ! (i - 1)) \<and>
        startsWith (hash zeroDigest (chain afterTransfer ! i)) (repeat CHR ''0'' (difficulty afterTransfer))"
  proof (intro allI impI)
    fix i assume "0 < i \<and> i < length (chain afterTransfer)"
    then have "i = 1" by (simp add: sample_chain(1))
    then show "prevHash (chain afterTransfer ! i) = hash zeroDigest (chain afterTransfer ! (i - 1)) \<and>
        startsWith (hash zeroDigest (chain afterTransfer ! i)) (repeat CHR ''0'' (difficulty afterTransfer))"
      by (simp add: sample_chain startsWith_def repeat_def)
  qed
  with t have "isChainValid zeroDigest afterTransfer" by blast
  with link r show ?thesis by (simp add: sample_chain(1))
qed

section \<open>Draining the mempool\<close>

text \<open>
  C8, as the code has it: for a pool sorted by descending priority and a count that is
  not negative, \<^verbatim>\<open>getTransactionsForBlock\<close> returns the transactions of the first
  \<open>maxCount\<close> entries and keeps the rest; it returns at most \<open>maxCount\<close> transactions,
  in descending priority, none of lower priority than any entry that stays; the entries
  that stay keep their order; and a count above the pool's size returns every
  transaction and leaves the pool empty.
\<close>

theorem drain_takes_prefix:
  assumes d: "descending (pendingTransactions m)" and n: "0 \<le> maxCount"
  shows "getTransactionsForBlock maxCount m =
           (map transaction (take (nat maxCount) (pendingTransactions m)),
            m\<lparr>pendingTransactions := drop (nat maxCount) (pendingTransactions m)\<rparr>) \<and>
         int (length (fst (getTransactionsForBlock maxCount m))) \<le> maxCount \<and>
         descending (take (nat maxCount) (pendingTransactions m)) \<and>
         descending (drop (nat maxCount) (pendingTransactions m)) \<and>
         (\<forall>p \<in> set (take (nat maxCount) (pendingTransactions m)).
            \<forall>q \<in> set (drop (nat maxCount) (pendingTransactions m)). priority q \<le> priority p) \<and>
         (int (length (pendingTransactions m)) < maxCount \<longrightarrow>
            fst (getTransactionsForBlock maxCount m) = map transaction (pendingTransactions m) \<and>
            pendingTransactions (snd (getTransactionsForBlock maxCount m)) = [])"
proof -
  let ?ps = "pendingTransactions m"
  have eq: "getTransactionsForBlock maxCount m =
           (map transaction (take (nat maxCount) ?ps),
            m\<lparr>pendingTransactions := drop (nat maxCount) ?ps\<rparr>)"
    using n by (simp add: getTransactionsForBlock_def slice_prefix sliceFrom_suffix)
  have len: "int (length (fst (getTransactionsForBlock maxCount m))) \<le> maxCount"
    using n by (simp add: eq)
  have "descending (take (nat maxCount) ?ps @ drop (nat maxCount) ?ps)"
    using d by simp
  then have parts: "descending (take (nat maxCount) ?ps)" "descending (drop (nat maxCount) ?ps)"
    "\<forall>p \<in> set (take (nat maxCount) ?ps). \<forall>q \<in> set (drop (nat maxCount) ?ps).
       priority q \<le> priority p"
    unfolding descending_def sorted_wrt_append by blast+
  have all: "int (length ?ps) < maxCount \<longrightarrow>
            fst (getTransactionsForBlock maxCount m) = map transaction ?ps \<and>
            pendingTransactions (snd (getTransactionsForBlock maxCount m)) = []"
    by (simp add: eq)
  from eq len parts all show ?thesis by blast
qed

theorem drain_takes_prefix_witness:
  "descending (pendingTransactions threePool) \<and> (0::int) \<le> 2 \<and>
   getTransactionsForBlock 2 threePool =
     ([new_Transaction 1 ''a'' ''b'' 5 REGULAR 0, new_Transaction 1 ''a'' ''b'' 3 REGULAR 0],
      \<lparr>pendingTransactions =
         [\<lparr>transaction = new_Transaction 1 ''a'' ''b'' 1 REGULAR 0, priority = 1000\<rparr>],
       maxPoolSize = 100\<rparr>) \<and>
   getTransactionsForBlock 5 threePool =
     ([new_Transaction 1 ''a'' ''b'' 5 REGULAR 0, new_Transaction 1 ''a'' ''b'' 3 REGULAR 0,
       new_Transaction 1 ''a'' ''b'' 1 REGULAR 0],
      \<lparr>pendingTransactions = [], maxPoolSize = 100\<rparr>)"
proof -
  have d: "descending (pendingTransactions threePool)"
    by (simp add: descending_def threePool_def)
  from drain_takes_prefix[OF d, of 2] drain_takes_prefix[OF d, of 5] d show ?thesis
    by (simp add: threePool_def numeral_2_eq_2)
qed

text \<open>
  C8 for every count fails at a negative one, which \<^verbatim>\<open>slice\<close> reads from the end of the
  array: with count -1 a pool of three gives up two transactions.
\<close>

theorem drain_negative_count_counterexample:
  "descending (pendingTransactions threePool) \<and>
   fst (getTransactionsForBlock (- 1) threePool) =
     [new_Transaction 1 ''a'' ''b'' 5 REGULAR 0, new_Transaction 1 ''a'' ''b'' 3 REGULAR 0] \<and>
   \<not> int (length (fst (getTransactionsForBlock (- 1) threePool))) \<le> - 1"
  by (simp add: descending_def getTransactionsForBlock_def threePool_def slice_def relativeIndex_def)

section \<open>The recorded hash\<close>

text \<open>
  C9, as the code has it: once a non-empty hash is recorded with \<^verbatim>\<open>setHash\<close>, the
  getter returns it, whatever the nonce is set to afterwards, and a block mined on top
  names it as its previous hash.
\<close>

theorem recorded_hash_is_stable:
  "h \<noteq> [] \<Longrightarrow>
     hash D (setHash h b) = h \<and>
     hash D ((setHash h b)\<lparr>nonce := n\<rparr>) = h \<and>
     prevHash (candidateBlock D txNow blockNow seed addr ((setHash h b)\<lparr>nonce := n\<rparr>) txs) = h"
  by (simp add: hash_def setHash_def candidateBlock_def new_Block_def)

theorem recorded_hash_is_stable_witness:
  "''00ab'' \<noteq> [] \<and>
   hash nonceDigest (setHash ''00ab'' bareBlock) = ''00ab'' \<and>
   hash nonceDigest ((setHash ''00ab'' bareBlock)\<lparr>nonce := 7\<rparr>) = ''00ab'' \<and>
   prevHash (candidateBlock nonceDigest 0 0 0 ''miner''
     ((setHash ''00ab'' bareBlock)\<lparr>nonce := 7\<rparr>) []) = ''00ab''"
  using recorded_hash_is_stable[of "''00ab''" nonceDigest bareBlock 7 0 0 0 "''miner''" "[]"]
  by simp

text \<open>
  C9 for every recorded value fails at the empty string, which the getter's test
  \<^verbatim>\<open>if (this._hash)\<close> takes for no hash at all: the getter computes the digest
  instead, and it changes with the nonce.
\<close>

theorem empty_recorded_hash_counterexample:
  "hash nonceDigest (setHash [] bareBlock) = ''a'' \<and>
   hash nonceDigest ((setHash [] bareBlock)\<lparr>nonce := 3\<rparr>) = ''a111'' \<and>
   hash nonceDigest ((setHash [] bareBlock)\<lparr>nonce := 3\<rparr>) \<noteq> []"
  by (simp add: hash_def setHash_def bareBlock_def new_Block_def calculateHash_def numeral_3_eq_3)

section \<open>Balance history against the balance table\<close>

text \<open>
  C10, evaluated on a fresh engine at the address \<^verbatim>\<open>genesis\<close>, the payer of the genesis
  transaction: the history ends at -100 and the balance table says 0.
\<close>

theorem history_debits_genesis_payer:
  "getBalanceHistory freshEngine ''genesis'' =
     [\<lparr>address = ''genesis'', balance = - 100, block_ts = 0, blockHeight = 0\<rparr>] \<and>
   balance (last (getBalanceHistory freshEngine ''genesis'')) = - 100 \<and>
   getBalance freshEngine ''genesis'' = 0"
  by (simp add: getBalanceHistory_def freshEngine_def new_ChainController_def
      createGenesisBlock_def updateBalance_def getBalance_def new_Block_def createGenesis_def
      new_Transaction_def historyStep_def getTotalCost_def js_add_def js_sub_def
      nearestDouble_whole)

end
